theory Spec2Isabelle
  imports Complex_Main "HOL-Library.AList"
begin

section \<open>Data model of the BlendSearch coordinator\<close>

text \<open>
  A shallow embedding of \<^verbatim>\<open>flaml/searcher/blendsearch.py\<close>: the classes
  \<^verbatim>\<open>BlendSearch\<close> and \<^verbatim>\<open>CFO\<close>.

  Python values are modelled as follows.
  \<^item> A configuration and a result record are dictionaries from names to numbers:
    maps \<open>string \<rightharpoonup> real\<close>. A falsy dictionary is the empty map; an absent
    (\<^verbatim>\<open>None\<close>) result is \<open>None\<close> of \<open>result option\<close>. Floating point numbers
    are read as real numbers.
  \<^item> Dictionaries the code iterates over (the admissible boxes, the thread pool, the
    candidate start points) are association lists in insertion order, looked up with
    \<open>map_of\<close> and written with \<open>AList.update\<close>, which overwrites in place or
    appends, as a Python dictionary does.
  \<^item> Exceptions are values of \<open>error\<close>; a method returns \<open>error + 'a\<close>.
  \<^item> \<^verbatim>\<open>np.inf\<close> lives in \<open>xreal\<close>, the reals extended by the two infinities and
    NaN, with the few IEEE operations the coordinator applies to them. The results a
    caller reports hold finite numbers (\<open>result\<close>); the result cache and the threads
    also see the record the coordinator makes up for a configuration that violates a
    configuration constraint, whose objective is infinite, so they hold \<open>xresult\<close>,
    and \<open>of_result\<close> embeds the former into the latter.
  \<^item> The collaborators whose code is not part of the file (the local search engine
    \<^verbatim>\<open>FLOW2\<close>, the class \<^verbatim>\<open>SearchThread\<close>, \<^verbatim>\<open>generate_variants\<close>) are
    parameters: the record \<open>collab\<close> holds their methods as functions over an opaque
    thread state \<open>'t\<close> and an opaque engine state \<open>'l\<close>. Their methods are taken not to
    raise.
\<close>

datatype error = KeyError | TypeError | AssertionError | AttributeError | ValueError | IndexError

datatype xreal = Fin real | PInf | MInf | NaN

type_synonym config = "string \<rightharpoonup> real"
type_synonym result = "string \<rightharpoonup> real"
type_synonym xresult = "string \<rightharpoonup> xreal"
type_synonym trial_id = string
type_synonym bounds = "(string \<times> real) list"
type_synonym 't pool = "(int \<times> 't) list"

datatype variant = BlendSearch | CFO

fun xminus :: "xreal \<Rightarrow> xreal \<Rightarrow> xreal" where
  "xminus NaN y = NaN"
| "xminus x NaN = NaN"
| "xminus (Fin a) (Fin b) = Fin (a - b)"
| "xminus (Fin a) PInf = MInf"
| "xminus (Fin a) MInf = PInf"
| "xminus PInf PInf = NaN"
| "xminus PInf y = PInf"
| "xminus MInf MInf = NaN"
| "xminus MInf y = MInf"

fun xtimes :: "xreal \<Rightarrow> real \<Rightarrow> xreal" where
  "xtimes NaN r = NaN"
| "xtimes (Fin a) r = Fin (a * r)"
| "xtimes PInf r = (if 0 < r then PInf else if r < 0 then MInf else NaN)"
| "xtimes MInf r = (if 0 < r then MInf else if r < 0 then PInf else NaN)"

fun xless :: "xreal \<Rightarrow> xreal \<Rightarrow> bool" where
  "xless NaN y = False"
| "xless x NaN = False"
| "xless (Fin a) (Fin b) = (a < b)"
| "xless x MInf = False"
| "xless MInf y = True"
| "xless PInf y = False"
| "xless (Fin a) PInf = True"

definition xle :: "xreal \<Rightarrow> xreal \<Rightarrow> bool" where
  "xle x y = (xless x y \<or> (x \<noteq> NaN \<and> x = y))"

text \<open>
  The collaborators. \<open>metric_op\<close>, \<open>STEPSIZE\<close>, \<open>ls_metric\<close> (\<^verbatim>\<open>self._ls.metric\<close>),
  \<open>init_config\<close>, \<open>ls_resource\<close> (\<^verbatim>\<open>self._ls._resource\<close>), \<open>prune_attr\<close> and
  \<open>min_resource\<close> are attributes of the local search engine; \<open>normalize\<close>,
  \<open>config_signature\<close>, \<open>complete_config\<close> its methods; \<open>new_thread\<close> is
  \<^verbatim>\<open>SearchThread(mode, self._ls.create(config, obj, cost), cost_attr)\<close> and
  \<open>thread0\<close> is \<^verbatim>\<open>SearchThread(mode, self._gs)\<close>; the rest are the attributes and
  methods of a \<^verbatim>\<open>SearchThread\<close>. \<open>cls\<close> is the class of the coordinator.
\<close>

record ('t, 'l, 'sig) collab =
  cls :: variant
  metric_op :: real
  STEPSIZE :: real
  ls_metric :: string
  init_config :: config
  ls_resource :: "real option"
  prune_attr :: string
  min_resource :: real
  normalize :: "config \<Rightarrow> bounds"
  config_signature :: "config \<Rightarrow> 'sig"
  complete_config :: "'l \<Rightarrow> config \<Rightarrow> bounds \<Rightarrow> bounds \<Rightarrow> config \<times> 'l"
  generate_variants :: "'l \<Rightarrow> config \<times> 'l"
  new_thread :: "'l \<Rightarrow> config \<Rightarrow> real \<Rightarrow> real \<Rightarrow> 't \<times> 'l"
  thread0 :: 't
  thread_on_trial_complete :: "'t \<Rightarrow> trial_id \<Rightarrow> xresult option \<Rightarrow> bool \<Rightarrow> 't"
  thread_on_trial_result :: "'t \<Rightarrow> trial_id \<Rightarrow> result \<Rightarrow> 't"
  thread_suggest :: "'t \<Rightarrow> trial_id \<Rightarrow> config option \<times> 't"
  inc_running :: "'t \<Rightarrow> 't"
  obj_best1 :: "'t \<Rightarrow> real"
  obj_best2 :: "'t \<Rightarrow> real"
  resource :: "'t \<Rightarrow> real option"
  reach :: "'t \<Rightarrow> 't \<Rightarrow> bool"
  converged :: "'t \<Rightarrow> bool"
  can_suggest :: "'t \<Rightarrow> bool"
  speed :: "'t \<Rightarrow> real"
  eci :: "'t \<Rightarrow> xreal"
  priority :: "'t \<Rightarrow> real"
  update_eci :: "'t \<Rightarrow> xreal \<Rightarrow> real \<Rightarrow> 't"
  update_priority :: "'t \<Rightarrow> xreal \<Rightarrow> 't"

text \<open>
  The attributes of the coordinator. \<open>result_cache\<close> is \<^verbatim>\<open>self._result\<close>, the other
  fields carry the attribute's name without its underscore. An optional list that is
  only tested for truth (\<^verbatim>\<open>_config_constraints\<close>, \<^verbatim>\<open>_metric_constraints\<close>) is a
  list, empty when absent. \<open>started_from_given\<close> and \<open>started_from_low_cost\<close> are
  \<open>None\<close> while the attribute has not been assigned.
\<close>

record ('t, 'l, 'sig) coordinator =
  metric :: string
  points_to_evaluate :: "config list"
  config_constraints :: "((config \<Rightarrow> real) \<times> string \<times> real) list"
  metric_constraints :: "(string \<times> string \<times> real) list"
  candidate_start_points :: "(trial_id \<times> result option) list option"
  started_from_given :: "bool option"
  started_from_low_cost :: "bool option"
  ls :: 'l
  metric_target :: xreal
  search_thread_pool :: "'t pool"
  thread_count :: int
  init_used :: bool
  trial_proposed_by :: "trial_id \<rightharpoonup> int"
  ls_bound_min :: bounds
  ls_bound_max :: bounds
  gs_admissible_min :: bounds
  gs_admissible_max :: bounds
  result_cache :: "'sig \<rightharpoonup> xresult"
  deadline :: xreal
  metric_constraint_satisfied :: bool
  metric_constraint_penalty :: "real list option"

definition lagrange :: string where
  "lagrange = ''_lagrange''"

definition penalty :: real where
  "penalty = 10000000000"

definition cost_attr :: string where
  "cost_attr = ''time_total_s''"

section \<open>Dictionary helpers\<close>

definition keys :: "('k \<times> 'v) list \<Rightarrow> 'k list" where
  "keys d = map fst d"

text \<open>\<^verbatim>\<open>dst.update(src)\<close>: every item of \<open>src\<close> written into \<open>dst\<close>, in order.\<close>

definition dict_update :: "('k \<times> 'v) list \<Rightarrow> ('k \<times> 'v) list \<Rightarrow> ('k \<times> 'v) list" where
  "dict_update dst src = fold (\<lambda>kv d. AList.update (fst kv) (snd kv) d) src dst"

definition of_result :: "result \<Rightarrow> xresult" where
  "of_result r = (\<lambda>k. map_option Fin (r k))"

text \<open>The configuration of a result: its \<^verbatim>\<open>config/<name>\<close> items, under \<^verbatim>\<open><name>\<close>.\<close>

definition config_of :: "result \<Rightarrow> config" where
  "config_of r = (\<lambda>k. r (''config/'' @ k))"

section \<open>Admissible regions\<close>

fun update_region_loop ::
  "(string \<rightharpoonup> real) \<Rightarrow> string list \<Rightarrow> bounds \<Rightarrow> bounds \<Rightarrow> error + (bounds \<times> bounds)" where
  "update_region_loop nc [] amin amax = Inr (amin, amax)"
| "update_region_loop nc (key # ks) amin amax =
     (case nc key of
        None \<Rightarrow> Inl KeyError
      | Some v \<Rightarrow>
          (case map_of amax key of
             None \<Rightarrow> Inl KeyError
           | Some hi \<Rightarrow>
               if v > hi then update_region_loop nc ks amin (AList.update key v amax)
               else (case map_of amin key of
                       None \<Rightarrow> Inl KeyError
                     | Some lo \<Rightarrow>
                         if v < lo then update_region_loop nc ks (AList.update key v amin) amax
                         else update_region_loop nc ks amin amax)))"

definition update_admissible_region ::
  "('t, 'l, 'sig) collab \<Rightarrow> config \<Rightarrow> bounds \<Rightarrow> bounds \<Rightarrow> error + (bounds \<times> bounds)" where
  "update_admissible_region c config amin amax =
     update_region_loop (map_of (normalize c config)) (keys amin) amin amax"

fun expand_loop :: "real \<Rightarrow> string list \<Rightarrow> bounds \<Rightarrow> bounds \<Rightarrow> error + (bounds \<times> bounds)" where
  "expand_loop st [] bmin bmax = Inr (bmin, bmax)"
| "expand_loop st (key # ks) bmin bmax =
     (case map_of bmax key of
        None \<Rightarrow> Inl KeyError
      | Some hi \<Rightarrow>
          (case map_of bmin key of
             None \<Rightarrow> Inl KeyError
           | Some lo \<Rightarrow>
               expand_loop st ks (AList.update key (lo - st) bmin) (AList.update key (hi + st) bmax)))"

definition expand_admissible_region ::
  "('t, 'l, 'sig) collab \<Rightarrow> ('t, 'l, 'sig) coordinator \<Rightarrow> error + ('t, 'l, 'sig) coordinator" where
  "expand_admissible_region c s =
     (case expand_loop (STEPSIZE c) (keys (ls_bound_max s)) (ls_bound_min s) (ls_bound_max s) of
        Inl e \<Rightarrow> Inl e
      | Inr (bmin, bmax) \<Rightarrow> Inr (s\<lparr>ls_bound_min := bmin, ls_bound_max := bmax\<rparr>))"

fun valid_loop ::
  "real \<Rightarrow> config \<Rightarrow> (string \<rightharpoonup> real) \<Rightarrow> bounds \<Rightarrow> bounds \<Rightarrow> string list \<Rightarrow> error + bool" where
  "valid_loop st config nc gmin gmax [] = Inr True"
| "valid_loop st config nc gmin gmax (key # ks) =
     (if config key \<noteq> None then
        (case nc key of
           None \<Rightarrow> Inl KeyError
         | Some v \<Rightarrow>
             (case map_of gmin key of
                None \<Rightarrow> Inl KeyError
              | Some lo \<Rightarrow>
                  if v + st < lo then Inr False
                  else (case map_of gmax key of
                          None \<Rightarrow> Inl KeyError
                        | Some hi \<Rightarrow>
                            if v > hi + st then Inr False
                            else valid_loop st config nc gmin gmax ks)))
      else valid_loop st config nc gmin gmax ks)"

definition valid ::
  "('t, 'l, 'sig) collab \<Rightarrow> ('t, 'l, 'sig) coordinator \<Rightarrow> config \<Rightarrow> error + bool" where
  "valid c s config =
     valid_loop (STEPSIZE c) config (map_of (normalize c config))
       (gs_admissible_min s) (gs_admissible_max s) (keys (gs_admissible_min s))"

section \<open>Domination and the creation conditions\<close>

text \<open>\<^verbatim>\<open>t1.resource and t1.resource < t2.resource\<close>, read for its truth value.\<close>

definition resource_smaller :: "real option \<Rightarrow> real option \<Rightarrow> error + bool" where
  "resource_smaller r1 r2 =
     (case r1 of
        None \<Rightarrow> Inr False
      | Some a \<Rightarrow>
          if a = 0 then Inr False
          else (case r2 of None \<Rightarrow> Inl TypeError | Some b \<Rightarrow> Inr (a < b)))"

definition inferior ::
  "('t, 'l, 'sig) collab \<Rightarrow> 't pool \<Rightarrow> int \<Rightarrow> int \<Rightarrow> error + bool" where
  "inferior c pool id1 id2 =
     (case map_of pool id1 of
        None \<Rightarrow> Inl KeyError
      | Some t1 \<Rightarrow>
          (case map_of pool id2 of
             None \<Rightarrow> Inl KeyError
           | Some t2 \<Rightarrow>
               if obj_best1 c t1 < obj_best2 c t2 then Inr False
               else (case resource_smaller (resource c t1) (resource c t2) of
                       Inl e \<Rightarrow> Inl e
                     | Inr True \<Rightarrow> Inr False
                     | Inr False \<Rightarrow> if reach c t2 t1 then Inr True else Inr False)))"

text \<open>\<^verbatim>\<open>np.median\<close> of a non-empty list; of the empty list it is NaN.\<close>

definition median :: "real list \<Rightarrow> xreal" where
  "median xs =
     (let s = sort xs; n = length s in
      if n = 0 then NaN
      else if odd n then Fin (s ! (n div 2))
      else Fin ((s ! (n div 2 - 1) + s ! (n div 2)) / 2))"

definition BlendSearch_create_condition ::
  "('t, 'l, 'sig) collab \<Rightarrow> ('t, 'l, 'sig) coordinator \<Rightarrow> result \<Rightarrow> error + bool" where
  "BlendSearch_create_condition c s r =
     (if length (search_thread_pool s) < 2 then Inr True
      else
        let obj_median =
              median (map (\<lambda>p. obj_best1 c (snd p)) (filter (\<lambda>p. fst p \<noteq> 0) (search_thread_pool s)))
        in (case r (ls_metric c) of
              None \<Rightarrow> Inl KeyError
            | Some obj \<Rightarrow> Inr (xless (Fin (obj * metric_op c)) obj_median)))"

text \<open>The resolved (truthy) results among the candidate start points, in order.\<close>

definition resolved :: "(trial_id \<times> result option) list \<Rightarrow> (trial_id \<times> result) list" where
  "resolved cands =
     concat (map (\<lambda>p. case snd p of
                          None \<Rightarrow> []
                        | Some r \<Rightarrow> if r = Map.empty then [] else [(fst p, r)]) cands)"

fun objectives :: "string \<Rightarrow> real \<Rightarrow> result list \<Rightarrow> error + real list" where
  "objectives m op [] = Inr []"
| "objectives m op (r # rs) =
     (case r m of
        None \<Rightarrow> Inl KeyError
      | Some v \<Rightarrow> (case objectives m op rs of Inl e \<Rightarrow> Inl e | Inr vs \<Rightarrow> Inr (op * v # vs)))"

text \<open>An optional dictionary read for its truth value and its items.\<close>

definition cands :: "('t, 'l, 'sig) coordinator \<Rightarrow> (trial_id \<times> result option) list" where
  "cands s = (case candidate_start_points s of None \<Rightarrow> [] | Some d \<Rightarrow> d)"

definition CFO_create_condition ::
  "('t, 'l, 'sig) collab \<Rightarrow> ('t, 'l, 'sig) coordinator \<Rightarrow> result \<Rightarrow> error + bool" where
  "CFO_create_condition c s r =
     (if points_to_evaluate s \<noteq> [] then Inr False
      else if length (search_thread_pool s) = 2 then Inr False
      else if cands s \<noteq> [] \<and> thread_count s = 1 then
        (case objectives (ls_metric c) (metric_op c) (map snd (resolved (cands s))) of
           Inl e \<Rightarrow> Inl e
         | Inr [] \<Rightarrow> Inl ValueError
         | Inr (v # vs) \<Rightarrow>
             (case r (ls_metric c) of
                None \<Rightarrow> Inl KeyError
              | Some obj \<Rightarrow> Inr (obj * metric_op c \<le> Min (set (v # vs)))))
      else Inr True)"

definition create_condition ::
  "('t, 'l, 'sig) collab \<Rightarrow> ('t, 'l, 'sig) coordinator \<Rightarrow> result \<Rightarrow> error + bool" where
  "create_condition c s r =
     (case cls c of
        BlendSearch \<Rightarrow> BlendSearch_create_condition c s r
      | CFO \<Rightarrow> CFO_create_condition c s r)"

section \<open>Thread creation and pruning\<close>

definition create_thread ::
  "('t, 'l, 'sig) collab \<Rightarrow> ('t, 'l, 'sig) coordinator \<Rightarrow> config \<Rightarrow> result
     \<Rightarrow> error + ('t, 'l, 'sig) coordinator" where
  "create_thread c s config r =
     (case r (ls_metric c) of
        None \<Rightarrow> Inl KeyError
      | Some obj \<Rightarrow>
          let tl = new_thread c (ls s) config obj (case r cost_attr of None \<Rightarrow> 1 | Some v \<Rightarrow> v);
              s1 = s\<lparr>ls := snd tl,
                     search_thread_pool := AList.update (thread_count s) (fst tl) (search_thread_pool s),
                     thread_count := thread_count s + 1\<rparr>
          in (case update_admissible_region c config (ls_bound_min s1) (ls_bound_max s1) of
                Inl e \<Rightarrow> Inl e
              | Inr (bmin, bmax) \<Rightarrow> Inr (s1\<lparr>ls_bound_min := bmin, ls_bound_max := bmax\<rparr>)))"

text \<open>
  The scan of \<^verbatim>\<open>_create_thread_from_best_candidate\<close>; \<open>best\<close> holds
  \<^verbatim>\<open>best_trial_id\<close> and \<^verbatim>\<open>obj_best\<close>, \<open>None\<close> while both are \<^verbatim>\<open>None\<close>.
\<close>

fun best_candidate_loop ::
  "string \<Rightarrow> real \<Rightarrow> (trial_id \<times> result option) list \<Rightarrow> (trial_id \<times> real) option
     \<Rightarrow> error + (trial_id \<times> real) option" where
  "best_candidate_loop m op [] best = Inr best"
| "best_candidate_loop m op (p # rest) best =
     (case snd p of
        None \<Rightarrow> best_candidate_loop m op rest best
      | Some r \<Rightarrow>
          if r = Map.empty then best_candidate_loop m op rest best
          else (case r m of
                  None \<Rightarrow> Inl KeyError
                | Some v \<Rightarrow>
                    (case best of
                       None \<Rightarrow> best_candidate_loop m op rest (Some (fst p, v * op))
                     | Some b \<Rightarrow>
                         if v * op < snd b then best_candidate_loop m op rest (Some (fst p, v * op))
                         else best_candidate_loop m op rest best)))"

definition create_thread_from_best_candidate ::
  "('t, 'l, 'sig) collab \<Rightarrow> ('t, 'l, 'sig) coordinator \<Rightarrow> error + ('t, 'l, 'sig) coordinator" where
  "create_thread_from_best_candidate c s =
     (case candidate_start_points s of
        None \<Rightarrow> Inl AttributeError
      | Some d \<Rightarrow>
          (case best_candidate_loop (ls_metric c) (metric_op c) d None of
             Inl e \<Rightarrow> Inl e
           | Inr None \<Rightarrow> Inr s
           | Inr (Some b) \<Rightarrow>
               if fst b = [] then Inr s
               else (case map_of d (fst b) of
                       None \<Rightarrow> Inl KeyError
                     | Some None \<Rightarrow> Inl AttributeError
                     | Some (Some r) \<Rightarrow>
                         create_thread c
                           (s\<lparr>started_from_given := Some True,
                              candidate_start_points := Some (AList.delete (fst b) d)\<rparr>)
                           (config_of r) r)))"

text \<open>The two scans of \<^verbatim>\<open>_clean\<close> over the pool's ids.\<close>

fun dominated_by ::
  "('t, 'l, 'sig) collab \<Rightarrow> 't pool \<Rightarrow> int \<Rightarrow> int list \<Rightarrow> error + int list" where
  "dominated_by c pool thread_id [] = Inr []"
| "dominated_by c pool thread_id (i # ids) =
     (if i \<noteq> 0 \<and> i \<noteq> thread_id then
        (case inferior c pool i thread_id of
           Inl e \<Rightarrow> Inl e
         | Inr b \<Rightarrow>
             (case dominated_by c pool thread_id ids of
                Inl e \<Rightarrow> Inl e
              | Inr ds \<Rightarrow> Inr (if b then i # ds else ds)))
      else dominated_by c pool thread_id ids)"

fun dominated ::
  "('t, 'l, 'sig) collab \<Rightarrow> 't pool \<Rightarrow> int \<Rightarrow> int list \<Rightarrow> error + bool" where
  "dominated c pool thread_id [] = Inr False"
| "dominated c pool thread_id (i # ids) =
     (if i \<noteq> 0 \<and> i \<noteq> thread_id then
        (case inferior c pool thread_id i of
           Inl e \<Rightarrow> Inl e
         | Inr True \<Rightarrow> Inr True
         | Inr False \<Rightarrow> dominated c pool thread_id ids)
      else dominated c pool thread_id ids)"

text \<open>
  The list \<^verbatim>\<open>worse\<close> of \<^verbatim>\<open>_clean\<close>: the candidates with a resolved result that is
  no better than \<open>obj\<close>.
\<close>

fun worse ::
  "string \<Rightarrow> real \<Rightarrow> real \<Rightarrow> (trial_id \<times> result option) list \<Rightarrow> error + trial_id list" where
  "worse m op obj [] = Inr []"
| "worse m op obj (p # rest) =
     (case snd p of
        None \<Rightarrow> worse m op obj rest
      | Some r \<Rightarrow>
          if r = Map.empty then worse m op obj rest
          else (case r m of
                  None \<Rightarrow> Inl KeyError
                | Some v \<Rightarrow>
                    (case worse m op obj rest of
                       Inl e \<Rightarrow> Inl e
                     | Inr w \<Rightarrow> Inr (if v * op \<ge> obj then fst p # w else w))))"

text \<open>
  The part of \<^verbatim>\<open>_clean\<close> run for a converged thread \<open>t\<close> after the expansion: it
  drops the worse candidates and returns \<^verbatim>\<open>create_new\<close>.
\<close>

definition clean_candidates ::
  "('t, 'l, 'sig) collab \<Rightarrow> ('t, 'l, 'sig) coordinator \<Rightarrow> 't
     \<Rightarrow> error + (('t, 'l, 'sig) coordinator \<times> bool)" where
  "clean_candidates c s t =
     (if cands s \<noteq> [] then
        (case started_from_given s of
           None \<Rightarrow> Inl AttributeError
         | Some given \<Rightarrow>
             (case (if \<not> given then
                      (case worse (ls_metric c) (metric_op c) (obj_best1 c t) (cands s) of
                         Inl e \<Rightarrow> Inl e
                       | Inr w \<Rightarrow>
                           Inr (s\<lparr>candidate_start_points :=
                                     Some (filter (\<lambda>p. fst p \<notin> set w) (cands s))\<rparr>))
                    else Inr s) of
                Inl e \<Rightarrow> Inl e
              | Inr s1 \<Rightarrow>
                  if cands s1 \<noteq> [] then
                    (case started_from_low_cost s1 of
                       None \<Rightarrow> Inl AttributeError
                     | Some low \<Rightarrow> Inr (s1, low))
                  else Inr (s1, False)))
      else Inr (s, False))"

definition clean ::
  "('t, 'l, 'sig) collab \<Rightarrow> ('t, 'l, 'sig) coordinator \<Rightarrow> int
     \<Rightarrow> error + ('t, 'l, 'sig) coordinator" where
  "clean c s thread_id =
     (if thread_id = 0 then Inl AssertionError
      else
        (case dominated_by c (search_thread_pool s) thread_id (keys (search_thread_pool s)) of
           Inl e \<Rightarrow> Inl e
         | Inr ds \<Rightarrow>
             (case dominated c (search_thread_pool s) thread_id (keys (search_thread_pool s)) of
                Inl e \<Rightarrow> Inl e
              | Inr b \<Rightarrow>
                  (case map_of (search_thread_pool s) thread_id of
                     None \<Rightarrow> Inl KeyError
                   | Some t \<Rightarrow>
                       (case (if converged c t then
                                (case expand_admissible_region c s of
                                   Inl e \<Rightarrow> Inl e
                                 | Inr s1 \<Rightarrow> clean_candidates c s1 t)
                              else Inr (s, False)) of
                          Inl e \<Rightarrow> Inl e
                        | Inr (s2, create_new) \<Rightarrow>
                            let todelete = ds @ (if b \<or> converged c t then [thread_id] else []);
                                s3 = s2\<lparr>search_thread_pool :=
                                          filter (\<lambda>p. fst p \<notin> set todelete) (search_thread_pool s2)\<rparr>
                            in if create_new then create_thread_from_best_candidate c s3
                               else Inr s3)))))"

section \<open>Completion of a trial\<close>

text \<open>
  The loop over the metric constraints: \<open>i\<close> is the index, the accumulator holds the
  objective, \<^verbatim>\<open>metric_constraint_satisfied\<close> and \<^verbatim>\<open>self._metric_constraint_penalty\<close>.
  A value that is absent or 0 is falsy and the constraint is skipped.
\<close>

fun constraint_loop ::
  "result \<Rightarrow> real \<Rightarrow> nat \<Rightarrow> (string \<times> string \<times> real) list \<Rightarrow> real \<times> bool \<times> real list option
     \<Rightarrow> error + (real \<times> bool \<times> real list option)" where
  "constraint_loop r op i [] acc = Inr acc"
| "constraint_loop r op i (con # cs) acc =
     (case r (fst con) of
        None \<Rightarrow> constraint_loop r op (Suc i) cs acc
      | Some v \<Rightarrow>
          if v = 0 then constraint_loop r op (Suc i) cs acc
          else
            let sign_op = (if fst (snd con) = ''<='' then 1 else - 1);
                violation = (v - snd (snd con)) * sign_op
            in if violation > 0 then
                 (case snd (snd acc) of
                    None \<Rightarrow> Inl TypeError
                  | Some ps \<Rightarrow>
                      if i < length ps then
                        constraint_loop r op (Suc i) cs
                          (fst acc + ps ! i * violation * op, False,
                           Some (if ps ! i < penalty then ps[i := ps ! i + violation] else ps))
                      else Inl IndexError)
               else constraint_loop r op (Suc i) cs acc)"

definition truthy :: "result option \<Rightarrow> bool" where
  "truthy ro = (case ro of None \<Rightarrow> False | Some r \<Rightarrow> r \<noteq> Map.empty)"

text \<open>
  The first block of \<^verbatim>\<open>on_trial_complete\<close>: it returns the local flag
  \<^verbatim>\<open>metric_constraint_satisfied\<close>, the result as mutated in place, and the state.
\<close>

definition account_constraints ::
  "('t, 'l, 'sig) collab \<Rightarrow> ('t, 'l, 'sig) coordinator \<Rightarrow> result option \<Rightarrow> bool
     \<Rightarrow> error + (bool \<times> result option \<times> ('t, 'l, 'sig) coordinator)" where
  "account_constraints c s ro err =
     (if truthy ro \<and> \<not> err \<and> metric_constraints s \<noteq> [] then
        (case the ro (metric s) of
           None \<Rightarrow> Inl KeyError
         | Some objective0 \<Rightarrow>
             (case constraint_loop (the ro) (metric_op c) 0 (metric_constraints s)
                     (objective0, True, metric_constraint_penalty s) of
                Inl e \<Rightarrow> Inl e
              | Inr (objective, sat, pen) \<Rightarrow>
                  Inr (sat, Some ((the ro)(metric s @ lagrange \<mapsto> objective)),
                       s\<lparr>metric_constraint_penalty :=
                            (if sat \<and> \<not> metric_constraint_satisfied s
                             then Some (map (\<lambda>_. 1) (metric_constraints s)) else pen),
                          metric_constraint_satisfied := (metric_constraint_satisfied s \<or> sat)\<rparr>)))
      else Inr (True, ro, s))"

text \<open>
  The second block: the owning thread, if it is still in the pool, is told, and the
  trial's owner is forgotten. It returns \<^verbatim>\<open>thread_id\<close>.
\<close>

definition deliver ::
  "('t, 'l, 'sig) collab \<Rightarrow> ('t, 'l, 'sig) coordinator \<Rightarrow> trial_id \<Rightarrow> result option \<Rightarrow> bool
     \<Rightarrow> int option \<times> ('t, 'l, 'sig) coordinator" where
  "deliver c s trial_id ro err =
     (case trial_proposed_by s trial_id of
        None \<Rightarrow> (None, s)
      | Some i \<Rightarrow>
          (case map_of (search_thread_pool s) i of
             None \<Rightarrow> (Some i, s)
           | Some t \<Rightarrow>
               (Some i,
                s\<lparr>search_thread_pool :=
                     AList.update i (thread_on_trial_complete c t trial_id (map_option of_result ro) err)
                       (search_thread_pool s),
                   trial_proposed_by := (trial_proposed_by s)(trial_id := None)\<rparr>)))"

text \<open>The thread creator of \<^verbatim>\<open>on_trial_complete\<close>, run when the creation condition holds.\<close>

definition spawn ::
  "('t, 'l, 'sig) collab \<Rightarrow> ('t, 'l, 'sig) coordinator \<Rightarrow> trial_id \<Rightarrow> config \<Rightarrow> result
     \<Rightarrow> error + ('t, 'l, 'sig) coordinator" where
  "spawn c s trial_id config r =
     (let given = (cands s \<noteq> [] \<and> trial_id \<in> set (keys (cands s)));
          s1 = (if given
                then s\<lparr>started_from_given := Some given,
                       candidate_start_points := Some (AList.delete trial_id (cands s))\<rparr>
                else s\<lparr>started_from_given := Some given, started_from_low_cost := Some True\<rparr>)
      in create_thread c s1 config r)"

definition sync_admissible ::
  "('t, 'l, 'sig) coordinator \<Rightarrow> ('t, 'l, 'sig) coordinator" where
  "sync_admissible s =
     s\<lparr>gs_admissible_min := dict_update (gs_admissible_min s) (ls_bound_min s),
       gs_admissible_max := dict_update (gs_admissible_max s) (ls_bound_max s)\<rparr>"

text \<open>
  The block under \<^verbatim>\<open>if result:\<close>, for the truthy result \<open>r\<close>. It returns
  \<^verbatim>\<open>thread_id\<close>, which the thread creator reassigns.
\<close>

definition record_result ::
  "('t, 'l, 'sig) collab \<Rightarrow> ('t, 'l, 'sig) coordinator \<Rightarrow> trial_id \<Rightarrow> int option \<Rightarrow> result \<Rightarrow> bool
     \<Rightarrow> bool \<Rightarrow> error + (int option \<times> ('t, 'l, 'sig) coordinator)" where
  "record_result c s trial_id thread_id r err sat =
     (let config = config_of r; sig = config_signature c config in
      if err then
        (if result_cache s sig = None then Inl KeyError
         else Inr (thread_id, s\<lparr>result_cache := (result_cache s)(sig := None)\<rparr>))
      else
        (case r (ls_metric c) of
           None \<Rightarrow> Inl KeyError
         | Some objective \<Rightarrow>
             let s1 = s\<lparr>result_cache := (result_cache s)(sig \<mapsto> of_result r)\<rparr>;
                 s2 = (if xless (xtimes (xminus (Fin objective) (metric_target s1)) (metric_op c)) (Fin 0)
                       then s1\<lparr>metric_target := Fin objective\<rparr> else s1)
             in (case (if thread_id = Some 0 \<and> sat then create_condition c s2 r else Inr False) of
                   Inl e \<Rightarrow> Inl e
                 | Inr True \<Rightarrow>
                     (case spawn c s2 trial_id config r of
                        Inl e \<Rightarrow> Inl e
                      | Inr s3 \<Rightarrow> Inr (Some (thread_count s2), sync_admissible s3))
                 | Inr False \<Rightarrow>
                     if thread_id \<noteq> None \<and> thread_id \<noteq> Some 0 \<and> \<not> metric_constraint_satisfied s2 then
                       (case expand_admissible_region c s2 of
                          Inl e \<Rightarrow> Inl e
                        | Inr s3 \<Rightarrow> Inr (thread_id, sync_admissible s3))
                     else Inr (thread_id, sync_admissible s2))))"

text \<open>
  \<^verbatim>\<open>BlendSearch.on_trial_complete\<close>. It returns the result as mutated in place, which
  the caller (the override of \<^verbatim>\<open>CFO\<close>) reads after the call, and the state.
\<close>

definition BlendSearch_on_trial_complete ::
  "('t, 'l, 'sig) collab \<Rightarrow> ('t, 'l, 'sig) coordinator \<Rightarrow> trial_id \<Rightarrow> result option \<Rightarrow> bool
     \<Rightarrow> error + (result option \<times> ('t, 'l, 'sig) coordinator)" where
  "BlendSearch_on_trial_complete c s trial_id ro err =
     (case account_constraints c s ro err of
        Inl e \<Rightarrow> Inl e
      | Inr (sat, ro1, s1) \<Rightarrow>
          (case (if truthy ro1
                 then record_result c (snd (deliver c s1 trial_id ro1 err)) trial_id
                        (fst (deliver c s1 trial_id ro1 err)) (the ro1) err sat
                 else Inr (deliver c s1 trial_id ro1 err)) of
             Inl e \<Rightarrow> Inl e
           | Inr (thread_id, s3) \<Rightarrow>
               (case thread_id of
                  None \<Rightarrow> Inr (ro1, s3)
                | Some i \<Rightarrow>
                    if i \<noteq> 0 \<and> map_of (search_thread_pool s3) i \<noteq> None then
                      (case clean c s3 i of Inl e \<Rightarrow> Inl e | Inr s4 \<Rightarrow> Inr (ro1, s4))
                    else Inr (ro1, s3))))"

definition CFO_on_trial_complete ::
  "('t, 'l, 'sig) collab \<Rightarrow> ('t, 'l, 'sig) coordinator \<Rightarrow> trial_id \<Rightarrow> result option \<Rightarrow> bool
     \<Rightarrow> error + ('t, 'l, 'sig) coordinator" where
  "CFO_on_trial_complete c s trial_id ro err =
     (case BlendSearch_on_trial_complete c s trial_id ro err of
        Inl e \<Rightarrow> Inl e
      | Inr (ro1, s1) \<Rightarrow>
          if cands s1 \<noteq> [] \<and> trial_id \<in> set (keys (cands s1)) then
            let s2 = s1\<lparr>candidate_start_points := Some (AList.update trial_id ro1 (cands s1))\<rparr>
            in if length (search_thread_pool s2) < 2 \<and> points_to_evaluate s2 = []
               then create_thread_from_best_candidate c s2
               else Inr s2
          else Inr s1)"

definition on_trial_complete ::
  "('t, 'l, 'sig) collab \<Rightarrow> ('t, 'l, 'sig) coordinator \<Rightarrow> trial_id \<Rightarrow> result option \<Rightarrow> bool
     \<Rightarrow> error + ('t, 'l, 'sig) coordinator" where
  "on_trial_complete c s trial_id ro err =
     (case cls c of
        BlendSearch \<Rightarrow>
          (case BlendSearch_on_trial_complete c s trial_id ro err of
             Inl e \<Rightarrow> Inl e
           | Inr p \<Rightarrow> Inr (snd p))
      | CFO \<Rightarrow> CFO_on_trial_complete c s trial_id ro err)"

definition on_trial_result ::
  "('t, 'l, 'sig) collab \<Rightarrow> ('t, 'l, 'sig) coordinator \<Rightarrow> trial_id \<Rightarrow> result
     \<Rightarrow> error + ('t, 'l, 'sig) coordinator" where
  "on_trial_result c s trial_id r =
     (case trial_proposed_by s trial_id of
        None \<Rightarrow> Inr s
      | Some thread_id \<Rightarrow>
          (case map_of (search_thread_pool s) thread_id of
             None \<Rightarrow> Inr s
           | Some t \<Rightarrow>
               (case (if r \<noteq> Map.empty \<and> metric_constraints s \<noteq> [] then
                        (case r (metric s) of
                           None \<Rightarrow> Inl KeyError
                         | Some v \<Rightarrow> Inr (r(metric s @ lagrange \<mapsto> v)))
                      else Inr r) of
                  Inl e \<Rightarrow> Inl e
                | Inr r1 \<Rightarrow>
                    Inr (s\<lparr>search_thread_pool :=
                              AList.update thread_id (thread_on_trial_result c t trial_id r1)
                                (search_thread_pool s)\<rparr>))))"

section \<open>Suggesting a configuration\<close>

text \<open>The loop of \<^verbatim>\<open>_should_skip\<close> over the configuration constraints, up to its break.\<close>

fun violated :: "((config \<Rightarrow> real) \<times> string \<times> real) list \<Rightarrow> config \<Rightarrow> bool" where
  "violated [] config = False"
| "violated (con # cs) config =
     (let v = fst con config in
      if (fst (snd con) = ''<='' \<and> v > snd (snd con)) \<or> (fst (snd con) = ''>='' \<and> v < snd (snd con))
      then True else violated cs config)"

definition should_skip ::
  "('t, 'l, 'sig) collab \<Rightarrow> ('t, 'l, 'sig) coordinator \<Rightarrow> int \<Rightarrow> trial_id \<Rightarrow> config option
     \<Rightarrow> error + (bool \<times> ('t, 'l, 'sig) coordinator)" where
  "should_skip c s choice trial_id co =
     (case co of
        None \<Rightarrow> Inr (True, s)
      | Some config \<Rightarrow>
          let sig = config_signature c config;
              seen = (result_cache s sig \<noteq> None);
              viol = (\<not> seen \<and> config_constraints s \<noteq> [] \<and> violated (config_constraints s) config);
              s1 = (if viol
                    then s\<lparr>result_cache := (result_cache s)
                             (sig \<mapsto> [metric s \<mapsto> xtimes PInf (metric_op c), ''time_total_s'' \<mapsto> Fin 1])\<rparr>
                    else s)
          in if seen \<or> viol then
               (if choice \<ge> 0 then
                  (case result_cache s1 sig of
                     None \<Rightarrow> Inr (True, s1)
                   | Some xr \<Rightarrow>
                       if xr \<noteq> Map.empty then
                         (case map_of (search_thread_pool s1) choice of
                            None \<Rightarrow> Inl KeyError
                          | Some t \<Rightarrow>
                              let s2 = s1\<lparr>search_thread_pool :=
                                            AList.update choice
                                              (thread_on_trial_complete c t trial_id (Some xr) False)
                                              (search_thread_pool s1)\<rparr>
                              in if choice \<noteq> 0 then
                                   (case clean c s2 choice of
                                      Inl e \<Rightarrow> Inl e
                                    | Inr s3 \<Rightarrow> Inr (True, s3))
                                 else Inr (True, s2))
                       else Inr (True, s1))
                else Inr (True, s1))
             else Inr (False, s1))"

text \<open>
  \<^verbatim>\<open>BlendSearch._select_thread\<close>; \<open>now\<close> is \<^verbatim>\<open>time.time()\<close>. The three loops over the
  threads, then the scan for the top and the backup thread, whose accumulator holds
  \<^verbatim>\<open>priority1\<close>, \<^verbatim>\<open>top_thread_id\<close>, \<^verbatim>\<open>priority2\<close> and \<^verbatim>\<open>backup_thread_id\<close>.
\<close>

fun eci_loop ::
  "('t, 'l, 'sig) collab \<Rightarrow> xreal \<Rightarrow> real \<Rightarrow> 't pool \<Rightarrow> xreal \<Rightarrow> 't pool \<times> xreal" where
  "eci_loop c target max_speed [] min_eci = ([], min_eci)"
| "eci_loop c target max_speed (p # ps) min_eci =
     (let t = update_eci c (snd p) target max_speed;
          rest = eci_loop c target max_speed ps (if xless (eci c t) min_eci then eci c t else min_eci)
      in ((fst p, t) # fst rest, snd rest))"

fun choose_loop ::
  "('t, 'l, 'sig) collab \<Rightarrow> 't pool \<Rightarrow> real \<times> int \<times> real \<times> int \<Rightarrow> real \<times> int \<times> real \<times> int" where
  "choose_loop c [] acc = acc"
| "choose_loop c (p # ps) (priority1, top_id, priority2, backup_id) =
     (if fst p \<noteq> 0 \<and> can_suggest c (snd p) then
        let pr = priority c (snd p);
            a1 = (if pr > priority1 then (pr, fst p) else (priority1, top_id));
            a2 = (if pr > priority2 \<or> backup_id = 0 then (pr, fst p) else (priority2, backup_id))
        in choose_loop c ps (fst a1, snd a1, fst a2, snd a2)
      else choose_loop c ps (priority1, top_id, priority2, backup_id))"

definition BlendSearch_select_thread ::
  "('t, 'l, 'sig) collab \<Rightarrow> ('t, 'l, 'sig) coordinator \<Rightarrow> real
     \<Rightarrow> error + ((int \<times> int) \<times> ('t, 'l, 'sig) coordinator)" where
  "BlendSearch_select_thread c s now =
     (let m0 = xminus (deadline s) (Fin now);
          min_eci0 = (if xle m0 (Fin 0) then Fin 0 else m0);
          max_speed = fold (\<lambda>p m. if speed c (snd p) > m then speed c (snd p) else m)
                        (search_thread_pool s) 0;
          pe = eci_loop c (metric_target s) max_speed (search_thread_pool s) min_eci0;
          pool = map (\<lambda>p. (fst p, update_priority c (snd p) (snd pe))) (fst pe)
      in (case map_of pool 0 of
            None \<Rightarrow> Inl KeyError
          | Some t0 \<Rightarrow>
              let r = choose_loop c pool (priority c t0, 0, priority c t0, 0)
              in Inr ((fst (snd r), snd (snd (snd r))), s\<lparr>search_thread_pool := pool\<rparr>)))"

text \<open>
  \<^verbatim>\<open>CFO._select_thread\<close> returns the first nonzero id twice; with no such id it
  returns \<^verbatim>\<open>None\<close>, which the caller fails to unpack.
\<close>

definition CFO_select_thread ::
  "('t, 'l, 'sig) coordinator \<Rightarrow> error + ((int \<times> int) \<times> ('t, 'l, 'sig) coordinator)" where
  "CFO_select_thread s =
     (case filter (\<lambda>k. k \<noteq> 0) (keys (search_thread_pool s)) of
        [] \<Rightarrow> Inl TypeError
      | k # ks \<Rightarrow> Inr ((k, k), s))"

definition select_thread ::
  "('t, 'l, 'sig) collab \<Rightarrow> ('t, 'l, 'sig) coordinator \<Rightarrow> real
     \<Rightarrow> error + ((int \<times> int) \<times> ('t, 'l, 'sig) coordinator)" where
  "select_thread c s now =
     (case cls c of
        BlendSearch \<Rightarrow> BlendSearch_select_thread c s now
      | CFO \<Rightarrow> CFO_select_thread s)"

text \<open>
  The end of the steady-state branch of \<^verbatim>\<open>suggest\<close>: the region of the proposing
  side is widened to hold the configuration, and the signature gets its placeholder.
\<close>

definition propose ::
  "('t, 'l, 'sig) collab \<Rightarrow> ('t, 'l, 'sig) coordinator \<Rightarrow> int \<Rightarrow> config
     \<Rightarrow> error + (config option \<times> ('t, 'l, 'sig) coordinator)" where
  "propose c s choice config0 =
     (if choice = 0 then
        let config = (if ls_resource c \<noteq> None \<and> ls_resource c \<noteq> Some 0
                      then config0(prune_attr c \<mapsto> min_resource c) else config0)
        in (case update_admissible_region c config (gs_admissible_min s) (gs_admissible_max s) of
              Inl e \<Rightarrow> Inl e
            | Inr (gmin, gmax) \<Rightarrow>
                Inr (Some config,
                     s\<lparr>gs_admissible_min := gmin, gs_admissible_max := gmax,
                       result_cache := (result_cache s)(config_signature c config \<mapsto> Map.empty)\<rparr>))
      else
        (case update_admissible_region c config0 (ls_bound_min s) (ls_bound_max s) of
           Inl e \<Rightarrow> Inl e
         | Inr (bmin, bmax) \<Rightarrow>
             let s1 = sync_admissible (s\<lparr>ls_bound_min := bmin, ls_bound_max := bmax\<rparr>)
             in Inr (Some config0,
                     s1\<lparr>result_cache := (result_cache s1)(config_signature c config0 \<mapsto> Map.empty)\<rparr>)))"

text \<open>The thread \<open>i\<close> of the pool is asked for a configuration.\<close>

definition ask ::
  "('t, 'l, 'sig) collab \<Rightarrow> ('t, 'l, 'sig) coordinator \<Rightarrow> int \<Rightarrow> trial_id
     \<Rightarrow> error + (config option \<times> ('t, 'l, 'sig) coordinator)" where
  "ask c s i trial_id =
     (case map_of (search_thread_pool s) i of
        None \<Rightarrow> Inl KeyError
      | Some t \<Rightarrow>
          Inr (fst (thread_suggest c t trial_id),
               s\<lparr>search_thread_pool :=
                    AList.update i (snd (thread_suggest c t trial_id)) (search_thread_pool s)\<rparr>))"

text \<open>
  The steady-state branch from the test \<^verbatim>\<open>if choice or self._valid(config)\<close> on, for a
  configuration that was not skipped.
\<close>

definition accept ::
  "('t, 'l, 'sig) collab \<Rightarrow> ('t, 'l, 'sig) coordinator \<Rightarrow> int \<Rightarrow> int \<Rightarrow> trial_id \<Rightarrow> config
     \<Rightarrow> error + (config option \<times> ('t, 'l, 'sig) coordinator)" where
  "accept c s choice backup trial_id config =
     (case (if choice \<noteq> 0 then Inr True else valid c s config) of
        Inl e \<Rightarrow> Inl e
      | Inr True \<Rightarrow>
          propose c (s\<lparr>trial_proposed_by := (trial_proposed_by s)(trial_id \<mapsto> choice)\<rparr>) choice config
      | Inr False \<Rightarrow>
          if choice = backup then
            let cl = complete_config c (ls s) (init_config c) (ls_bound_min s) (ls_bound_max s)
            in propose c
                 (s\<lparr>ls := snd cl, trial_proposed_by := (trial_proposed_by s)(trial_id \<mapsto> choice)\<rparr>)
                 choice (fst cl)
          else
            (case ask c s backup trial_id of
               Inl e \<Rightarrow> Inl e
             | Inr (co, s1) \<Rightarrow>
                 (case should_skip c s1 backup trial_id co of
                    Inl e \<Rightarrow> Inl e
                  | Inr (skip, s2) \<Rightarrow>
                      if skip then Inr (None, s2)
                      else (case co of
                              None \<Rightarrow> Inr (None, s2)
                            | Some config1 \<Rightarrow>
                                propose c
                                  (s2\<lparr>trial_proposed_by := (trial_proposed_by s2)(trial_id \<mapsto> backup)\<rparr>)
                                  backup config1))))"

definition steady_suggest ::
  "('t, 'l, 'sig) collab \<Rightarrow> ('t, 'l, 'sig) coordinator \<Rightarrow> trial_id \<Rightarrow> real
     \<Rightarrow> error + (config option \<times> ('t, 'l, 'sig) coordinator)" where
  "steady_suggest c s trial_id now =
     (case select_thread c s now of
        Inl e \<Rightarrow> Inl e
      | Inr ((choice, backup), s0) \<Rightarrow>
          if choice < 0 then Inr (None, s0)
          else
            (case ask c s0 choice trial_id of
               Inl e \<Rightarrow> Inl e
             | Inr (co, s1) \<Rightarrow>
                 if choice \<noteq> 0 \<and> co = None then
                   (case map_of (search_thread_pool s1) choice of
                      None \<Rightarrow> Inl KeyError
                    | Some t \<Rightarrow>
                        if converged c t then
                          (case expand_admissible_region c s1 of
                             Inl e \<Rightarrow> Inl e
                           | Inr s2 \<Rightarrow>
                               Inr (None,
                                    s2\<lparr>search_thread_pool :=
                                         AList.delete choice (search_thread_pool s2)\<rparr>))
                        else Inr (None, s1))
                 else
                   (case should_skip c s1 choice trial_id co of
                      Inl e \<Rightarrow> Inl e
                    | Inr (skip, s2) \<Rightarrow>
                        if skip then
                          (if choice \<noteq> 0 then Inr (None, s2)
                           else
                             let gl = generate_variants c (ls s2);
                                 s3 = s2\<lparr>ls := snd gl\<rparr>
                             in (case should_skip c s3 (- 1) trial_id (Some (fst gl)) of
                                   Inl e \<Rightarrow> Inl e
                                 | Inr (skip1, s4) \<Rightarrow>
                                     if skip1 then Inr (None, s4)
                                     else accept c s4 choice backup trial_id (fst gl)))
                        else (case co of
                                None \<Rightarrow> Inr (None, s2)
                              | Some config \<Rightarrow> accept c s2 choice backup trial_id config))))"

text \<open>The bootstrap branch of \<^verbatim>\<open>suggest\<close> (\<^verbatim>\<open>use init config\<close>).\<close>

definition bootstrap_suggest ::
  "('t, 'l, 'sig) collab \<Rightarrow> ('t, 'l, 'sig) coordinator \<Rightarrow> trial_id
     \<Rightarrow> error + (config option \<times> ('t, 'l, 'sig) coordinator)" where
  "bootstrap_suggest c s trial_id =
     (let s1 = (if candidate_start_points s \<noteq> None \<and> points_to_evaluate s \<noteq> []
                then s\<lparr>candidate_start_points := Some (AList.update trial_id None (cands s))\<rparr>
                else s);
          init = (case points_to_evaluate s1 of [] \<Rightarrow> init_config c | p # ps \<Rightarrow> p);
          s2 = s1\<lparr>points_to_evaluate := (case points_to_evaluate s1 of [] \<Rightarrow> [] | p # ps \<Rightarrow> ps)\<rparr>;
          cl = complete_config c (ls s2) init (ls_bound_min s2) (ls_bound_max s2);
          s3 = s2\<lparr>ls := snd cl\<rparr>;
          config = fst cl;
          sig = config_signature c config
      in (case result_cache s3 sig of
            Some xr \<Rightarrow> Inr (None, s3)
          | None \<Rightarrow>
              (case map_of (search_thread_pool s3) 0 of
                 None \<Rightarrow> Inl KeyError
               | Some t0 \<Rightarrow>
                   Inr (Some config,
                        s3\<lparr>result_cache := (result_cache s3)(sig \<mapsto> Map.empty),
                           init_used := True,
                           trial_proposed_by := (trial_proposed_by s3)(trial_id \<mapsto> 0),
                           search_thread_pool :=
                             AList.update 0 (inc_running c t0) (search_thread_pool s3)\<rparr>))))"

definition BlendSearch_suggest ::
  "('t, 'l, 'sig) collab \<Rightarrow> ('t, 'l, 'sig) coordinator \<Rightarrow> trial_id \<Rightarrow> real
     \<Rightarrow> error + (config option \<times> ('t, 'l, 'sig) coordinator)" where
  "BlendSearch_suggest c s trial_id now =
     (if init_used s \<and> points_to_evaluate s = [] then steady_suggest c s trial_id now
      else bootstrap_suggest c s trial_id)"

definition CFO_suggest ::
  "('t, 'l, 'sig) collab \<Rightarrow> ('t, 'l, 'sig) coordinator \<Rightarrow> trial_id \<Rightarrow> real
     \<Rightarrow> error + (config option \<times> ('t, 'l, 'sig) coordinator)" where
  "CFO_suggest c s trial_id now =
     (if \<not> length (search_thread_pool s) < 3 then Inl AssertionError
      else BlendSearch_suggest c
             (if length (search_thread_pool s) < 2 then s\<lparr>init_used := False\<rparr> else s) trial_id now)"

definition suggest ::
  "('t, 'l, 'sig) collab \<Rightarrow> ('t, 'l, 'sig) coordinator \<Rightarrow> trial_id \<Rightarrow> real
     \<Rightarrow> error + (config option \<times> ('t, 'l, 'sig) coordinator)" where
  "suggest c s trial_id now =
     (case cls c of
        BlendSearch \<Rightarrow> BlendSearch_suggest c s trial_id now
      | CFO \<Rightarrow> CFO_suggest c s trial_id now)"

section \<open>Initialisation and runs\<close>

text \<open>
  \<^verbatim>\<open>_init_search\<close>. The constructor hands the local search engine an initial
  configuration that is never \<^verbatim>\<open>None\<close>, so \<^verbatim>\<open>_init_used\<close> starts false.
\<close>

definition init_search ::
  "('t, 'l, 'sig) collab \<Rightarrow> ('t, 'l, 'sig) coordinator \<Rightarrow> ('t, 'l, 'sig) coordinator" where
  "init_search c s =
     s\<lparr>metric_target := xtimes PInf (metric_op c),
       search_thread_pool := [(0, thread0 c)],
       thread_count := 1,
       init_used := False,
       trial_proposed_by := Map.empty,
       ls_bound_min := normalize c (init_config c),
       ls_bound_max := normalize c (init_config c),
       gs_admissible_min := normalize c (init_config c),
       gs_admissible_max := normalize c (init_config c),
       result_cache := Map.empty,
       deadline := PInf,
       metric_constraint_satisfied := (metric_constraints s = []),
       metric_constraint_penalty :=
         (if metric_constraints s \<noteq> [] then Some (map (\<lambda>_. penalty) (metric_constraints s))
          else None)\<rparr>"

text \<open>
  The part of the constructor that sets the attributes \<^verbatim>\<open>_init_search\<close> leaves alone,
  for a coordinator of class \<open>cls c\<close> over the engine state \<open>l\<close>.
\<close>

definition construct ::
  "('t, 'l, 'sig) collab \<Rightarrow> 'l \<Rightarrow> string \<Rightarrow> config list \<Rightarrow> bool
     \<Rightarrow> ((config \<Rightarrow> real) \<times> string \<times> real) list \<Rightarrow> (string \<times> string \<times> real) list
     \<Rightarrow> ('t, 'l, 'sig) coordinator" where
  "construct c l m points low_cost_given ccs mcs =
     init_search c
       \<lparr>metric = m,
        points_to_evaluate = points,
        config_constraints = ccs,
        metric_constraints = mcs,
        candidate_start_points = (if cls c = CFO \<and> length points > 1 then Some [] else None),
        started_from_given = None,
        started_from_low_cost =
          (if cls c = CFO \<and> length points > 1 then Some (\<not> low_cost_given) else None),
        ls = l,
        metric_target = NaN,
        search_thread_pool = [],
        thread_count = 0,
        init_used = False,
        trial_proposed_by = Map.empty,
        ls_bound_min = [],
        ls_bound_max = [],
        gs_admissible_min = [],
        gs_admissible_max = [],
        result_cache = Map.empty,
        deadline = NaN,
        metric_constraint_satisfied = False,
        metric_constraint_penalty = None\<rparr>"

text \<open>
  The calls a trial runner makes, and a run of them from a state: it stops at the
  first exception.
\<close>

datatype call =
    Suggest trial_id real
  | Result trial_id result
  | Complete trial_id "result option" bool

definition step ::
  "('t, 'l, 'sig) collab \<Rightarrow> ('t, 'l, 'sig) coordinator \<Rightarrow> call
     \<Rightarrow> error + ('t, 'l, 'sig) coordinator" where
  "step c s a =
     (case a of
        Suggest trial_id now \<Rightarrow>
          (case suggest c s trial_id now of Inl e \<Rightarrow> Inl e | Inr p \<Rightarrow> Inr (snd p))
      | Result trial_id r \<Rightarrow> on_trial_result c s trial_id r
      | Complete trial_id ro err \<Rightarrow> on_trial_complete c s trial_id ro err)"

fun run ::
  "('t, 'l, 'sig) collab \<Rightarrow> ('t, 'l, 'sig) coordinator \<Rightarrow> call list
     \<Rightarrow> error + ('t, 'l, 'sig) coordinator" where
  "run c s [] = Inr s"
| "run c s (a # as) = (case step c s a of Inl e \<Rightarrow> Inl e | Inr s1 \<Rightarrow> run c s1 as)"

section \<open>A concrete instance\<close>

text \<open>
  Collaborators over one dimension \<open>x\<close> that is its own normalisation: a thread is
  the pair of its two best objectives and always proposes \<open>x = 1/2\<close>; the signature
  of a configuration is its value of \<open>x\<close>.
\<close>

definition demo :: "(real \<times> real, unit, real option) collab" where
  "demo =
     \<lparr>cls = BlendSearch,
      metric_op = 1,
      STEPSIZE = 1 / 100,
      ls_metric = ''loss'',
      init_config = [''x'' \<mapsto> 0],
      ls_resource = None,
      prune_attr = ''n'',
      min_resource = 1,
      normalize = (\<lambda>cfg. case cfg ''x'' of None \<Rightarrow> [] | Some v \<Rightarrow> [(''x'', v)]),
      config_signature = (\<lambda>cfg. cfg ''x''),
      complete_config = (\<lambda>l cfg lo hi. (cfg, l)),
      generate_variants = (\<lambda>l. ([''x'' \<mapsto> 0], l)),
      new_thread = (\<lambda>l cfg obj cost. ((obj, obj), l)),
      thread0 = (0, 0),
      thread_on_trial_complete = (\<lambda>t trial_id ro err. t),
      thread_on_trial_result = (\<lambda>t trial_id r. t),
      thread_suggest = (\<lambda>t trial_id. (Some [''x'' \<mapsto> 1 / 2], t)),
      inc_running = (\<lambda>t. t),
      obj_best1 = fst,
      obj_best2 = snd,
      resource = (\<lambda>t. None),
      reach = (\<lambda>t2 t1. True),
      converged = (\<lambda>t. False),
      can_suggest = (\<lambda>t. True),
      speed = (\<lambda>t. 0),
      eci = (\<lambda>t. Fin 1),
      priority = (\<lambda>t. fst t),
      update_eci = (\<lambda>t target max_speed. t),
      update_priority = (\<lambda>t min_eci. t)\<rparr>"

definition box_state :: "(real \<times> real, unit, real option) coordinator" where
  "box_state =
     (construct demo () ''loss'' [] False [] [])
       \<lparr>gs_admissible_min := [(''x'', 0)], gs_admissible_max := [(''x'', 3 / 10)]\<rparr>"

definition pool_state :: "(real \<times> real, unit, real option) coordinator" where
  "pool_state =
     (construct demo () ''loss'' [] False [] [])
       \<lparr>search_thread_pool := [(0, (0, 0)), (1, (5, 5)), (2, (3, 4)), (3, (1, 1))],
        thread_count := 4, init_used := True\<rparr>"

definition cached_state :: "xresult \<Rightarrow> (real \<times> real, unit, real option) coordinator" where
  "cached_state xr =
     (construct demo () ''loss'' [[''x'' \<mapsto> 1 / 4]] False [] [])
       \<lparr>result_cache := [Some (1 / 4) \<mapsto> xr]\<rparr>"






section \<open>Notions used to state the properties\<close>

text \<open>
  The attributes that thread creation, region expansion and the pruning pass leave
  alone: these touch only the local box, the pool, the thread count, the engine
  state, the candidate start points and the two start flags.
\<close>

definition prune_frame ::
  "('t, 'l, 'sig) coordinator \<Rightarrow> ('t, 'l, 'sig) coordinator \<Rightarrow> bool" where
  "prune_frame s s' =
     (metric s' = metric s \<and> points_to_evaluate s' = points_to_evaluate s
      \<and> config_constraints s' = config_constraints s \<and> metric_constraints s' = metric_constraints s
      \<and> metric_target s' = metric_target s \<and> init_used s' = init_used s
      \<and> trial_proposed_by s' = trial_proposed_by s
      \<and> gs_admissible_min s' = gs_admissible_min s \<and> gs_admissible_max s' = gs_admissible_max s
      \<and> result_cache s' = result_cache s \<and> deadline s' = deadline s
      \<and> metric_constraint_satisfied s' = metric_constraint_satisfied s
      \<and> metric_constraint_penalty s' = metric_constraint_penalty s)"

text \<open>
  The attributes that a completion leaves alone once the metric constraints have
  been accounted for.
\<close>

definition constraint_frame ::
  "('t, 'l, 'sig) coordinator \<Rightarrow> ('t, 'l, 'sig) coordinator \<Rightarrow> bool" where
  "constraint_frame s s' =
     (metric s' = metric s \<and> points_to_evaluate s' = points_to_evaluate s
      \<and> config_constraints s' = config_constraints s \<and> metric_constraints s' = metric_constraints s
      \<and> init_used s' = init_used s \<and> deadline s' = deadline s
      \<and> metric_constraint_satisfied s' = metric_constraint_satisfied s
      \<and> metric_constraint_penalty s' = metric_constraint_penalty s)"

text \<open>The attributes that \<^verbatim>\<open>suggest\<close> and \<^verbatim>\<open>on_trial_result\<close> leave alone.\<close>

definition suggest_frame ::
  "('t, 'l, 'sig) coordinator \<Rightarrow> ('t, 'l, 'sig) coordinator \<Rightarrow> bool" where
  "suggest_frame s s' =
     (metric s' = metric s
      \<and> config_constraints s' = config_constraints s \<and> metric_constraints s' = metric_constraints s
      \<and> metric_target s' = metric_target s \<and> deadline s' = deadline s
      \<and> metric_constraint_satisfied s' = metric_constraint_satisfied s
      \<and> metric_constraint_penalty s' = metric_constraint_penalty s)"

text \<open>
  Growth of a box: \<open>lower_le b b'\<close> says that every dimension of the lower bounds \<open>b\<close>
  is a dimension of \<open>b'\<close> with a value that is not larger, \<open>upper_ge b b'\<close> that every
  dimension of the upper bounds \<open>b\<close> is one of \<open>b'\<close> with a value that is not
  smaller. \<open>box_grows s s'\<close>: the local box of \<open>s'\<close> contains that of \<open>s\<close>.
  \<open>boxes_ok\<close>: the four dictionaries of the two boxes have the same dimensions, in
  the same order, each once, as they have after \<^verbatim>\<open>_init_search\<close>.
\<close>

definition lower_le :: "bounds \<Rightarrow> bounds \<Rightarrow> bool" where
  "lower_le b b' = (\<forall>k v. map_of b k = Some v \<longrightarrow> (\<exists>v'. map_of b' k = Some v' \<and> v' \<le> v))"

definition upper_ge :: "bounds \<Rightarrow> bounds \<Rightarrow> bool" where
  "upper_ge b b' = (\<forall>k v. map_of b k = Some v \<longrightarrow> (\<exists>v'. map_of b' k = Some v' \<and> v \<le> v'))"

definition box_grows ::
  "('t, 'l, 'sig) coordinator \<Rightarrow> ('t, 'l, 'sig) coordinator \<Rightarrow> bool" where
  "box_grows s s' =
     (lower_le (ls_bound_min s) (ls_bound_min s') \<and> upper_ge (ls_bound_max s) (ls_bound_max s'))"

definition boxes_ok :: "('t, 'l, 'sig) coordinator \<Rightarrow> bool" where
  "boxes_ok s =
     (distinct (keys (ls_bound_min s)) \<and> keys (ls_bound_max s) = keys (ls_bound_min s)
      \<and> keys (gs_admissible_min s) = keys (ls_bound_min s)
      \<and> keys (gs_admissible_max s) = keys (ls_bound_min s))"

text \<open>What a call does to the boxes: the local box grows, and the boxes stay well formed.\<close>

definition box_step ::
  "('t, 'l, 'sig) coordinator \<Rightarrow> ('t, 'l, 'sig) coordinator \<Rightarrow> bool" where
  "box_step s s' = (box_grows s s' \<and> (boxes_ok s \<longrightarrow> boxes_ok s'))"

text \<open>
  The signed violation of a metric constraint by the value \<open>v\<close>:
  \<open>(v - threshold)\<close> times \<open>+1\<close> for \<^verbatim>\<open><=\<close> and \<open>-1\<close> otherwise. A result violates a
  constraint when it has a nonzero value for the constraint's metric and the
  violation of that value is positive.
\<close>

definition violation :: "string \<times> string \<times> real \<Rightarrow> real \<Rightarrow> real" where
  "violation con v = (v - snd (snd con)) * (if fst (snd con) = ''<='' then 1 else - 1)"

definition violates :: "result \<Rightarrow> string \<times> string \<times> real \<Rightarrow> bool" where
  "violates r con = (case r (fst con) of None \<Rightarrow> False | Some v \<Rightarrow> v \<noteq> 0 \<and> violation con v > 0)"

text \<open>
  The sum of the penalty terms of a result: for each violated constraint its penalty
  weight times its violation times \<open>metric_op\<close>.
\<close>

fun penalty_terms :: "result \<Rightarrow> real \<Rightarrow> real list \<Rightarrow> (string \<times> string \<times> real) list \<Rightarrow> real" where
  "penalty_terms r op (p # ps) (con # cs) =
     (if violates r con then p * violation con (the (r (fst con))) * op else 0)
       + penalty_terms r op ps cs"
| "penalty_terms r op ps cs = 0"

text \<open>
  An instance with the metric constraint \<^verbatim>\<open>accuracy >= 0.9\<close>: the engine optimises the
  metric modified by the penalties.
\<close>

definition demo_mc :: "(real \<times> real, unit, real option) collab" where
  "demo_mc = demo\<lparr>ls_metric := ''loss_lagrange''\<rparr>"

definition mc_state :: "(real \<times> real, unit, real option) coordinator" where
  "mc_state = construct demo_mc () ''loss'' [] False [] [(''accuracy'', ''>='', 9 / 10)]"

definition r8 :: result where
  "r8 = [''loss'' \<mapsto> 1, ''accuracy'' \<mapsto> 8 / 10, ''config/x'' \<mapsto> 0]"

definition r95 :: result where
  "r95 = [''loss'' \<mapsto> 2, ''accuracy'' \<mapsto> 95 / 100, ''config/x'' \<mapsto> 1 / 2]"

definition r0 :: result where
  "r0 = [''loss'' \<mapsto> 3, ''accuracy'' \<mapsto> 0, ''config/x'' \<mapsto> 1 / 4]"

text \<open>The state after the completion of a trial with the result \<open>r8\<close>.\<close>

definition mc_state1 :: "(real \<times> real, unit, real option) coordinator" where
  "mc_state1 =
     (case on_trial_complete demo_mc mc_state ''t1'' (Some r8) False of
        Inl e \<Rightarrow> mc_state
      | Inr s \<Rightarrow> s)"


text \<open>The same collaborators under the class \<^verbatim>\<open>CFO\<close>, and a run of two trials.\<close>

definition demo_cfo :: "(real \<times> real, unit, real option) collab" where
  "demo_cfo = demo\<lparr>cls := CFO\<rparr>"

definition cfo_state :: "(real \<times> real, unit, real option) coordinator" where
  "cfo_state = construct demo_cfo () ''loss'' [] False [] []"

definition cfo_calls :: "call list" where
  "cfo_calls =
     [Suggest ''t1'' 0,
      Complete ''t1'' (Some [''loss'' \<mapsto> 1, ''config/x'' \<mapsto> 0]) False,
      Suggest ''t2'' 0,
      Complete ''t2'' (Some [''loss'' \<mapsto> 2, ''config/x'' \<mapsto> 1 / 2]) False]"

definition cfo_final :: "(real \<times> real, unit, real option) coordinator" where
  "cfo_final = (case run demo_cfo cfo_state cfo_calls of Inl e \<Rightarrow> cfo_state | Inr s \<Rightarrow> s)"






section \<open>Properties\<close>

subsection \<open>Domination\<close>

text \<open>
  C2. For threads \<open>A\<close> and \<open>B\<close> of the pool, \<^verbatim>\<open>_inferior(A, B)\<close> is true iff
  \<open>A\<close>'s best objective does not beat \<open>B\<close>'s second best, \<open>A\<close> has no truthy resource
  level strictly below \<open>B\<close>'s, and \<open>B\<close> reaches \<open>A\<close>; each of the first two conditions
  alone makes it false without consulting \<open>reach\<close>. The equation holds where the
  resource levels can be compared (\<open>B\<close> has one whenever \<open>A\<close>'s is truthy). With
  \<open>A.obj_best1 = 2\<close> and \<open>B.obj_best2 = 3\<close> the answer is false whatever \<open>reach\<close> and
  the resource levels are.
\<close>

theorem inferior_iff:
  assumes A: "map_of pool id1 = Some A" and B: "map_of pool id2 = Some B"
  shows "((resource c A \<noteq> None \<and> resource c A \<noteq> Some 0 \<longrightarrow> resource c B \<noteq> None) \<longrightarrow>
            inferior c pool id1 id2 =
              Inr (\<not> obj_best1 c A < obj_best2 c B
                   \<and> \<not> (\<exists>a b. resource c A = Some a \<and> a \<noteq> 0 \<and> resource c B = Some b \<and> a < b)
                   \<and> reach c B A))
         \<and> (obj_best1 c A < obj_best2 c B \<longrightarrow> inferior c pool id1 id2 = Inr False)
         \<and> ((\<exists>a b. resource c A = Some a \<and> a \<noteq> 0 \<and> resource c B = Some b \<and> a < b)
              \<longrightarrow> inferior c pool id1 id2 = Inr False)
         \<and> (obj_best1 c A = 2 \<and> obj_best2 c B = 3 \<longrightarrow> inferior c pool id1 id2 = Inr False)"
  using A B
  by (auto simp: inferior_def resource_smaller_def split: option.splits sum.splits bool.splits)

theorem inferior_iff_witness:
  "inferior (demo\<lparr>reach := (\<lambda>t2 t1. fst t2 \<le> fst t1)\<rparr>) [(0, (0, 0)), (1, (5, 5)), (2, (3, 4))] 1 2 = Inr True
   \<and> inferior (demo\<lparr>reach := (\<lambda>t2 t1. fst t2 \<le> fst t1)\<rparr>) [(0, (0, 0)), (1, (2, 2)), (2, (3, 3))] 1 2 = Inr False
   \<and> inferior (demo\<lparr>reach := (\<lambda>t2 t1. fst t2 \<le> fst t1)\<rparr>) [(0, (0, 0)), (1, (2, 2)), (2, (3, 3))] 2 1 = Inr True"
  using inferior_iff [of "[(0, (0, 0)), (1, (5, 5)), (2, (3, 4))]" 1 "(5, 5)" 2 "(3, 4)" "demo\<lparr>reach := (\<lambda>t2 t1. fst t2 \<le> fst t1)\<rparr>"]
    inferior_iff [of "[(0, (0, 0)), (1, (2, 2)), (2, (3, 3))]" 1 "(2, 2)" 2 "(3, 3)" "demo\<lparr>reach := (\<lambda>t2 t1. fst t2 \<le> fst t1)\<rparr>"]
    inferior_iff [of "[(0, (0, 0)), (1, (2, 2)), (2, (3, 3))]" 2 "(3, 3)" 1 "(2, 2)" "demo\<lparr>reach := (\<lambda>t2 t1. fst t2 \<le> fst t1)\<rparr>"]
  by (simp add: demo_def)

subsection \<open>Region validity\<close>

lemma valid_loop_spec:
  assumes "\<forall>k\<in>set ks. config k \<noteq> None \<longrightarrow> nc k \<noteq> None \<and> map_of gmin k \<noteq> None \<and> map_of gmax k \<noteq> None"
  shows "valid_loop st config nc gmin gmax ks =
           Inr (\<forall>k\<in>set ks. config k \<noteq> None \<longrightarrow>
                  (\<exists>v lo hi. nc k = Some v \<and> map_of gmin k = Some lo \<and> map_of gmax k = Some hi
                     \<and> lo - st \<le> v \<and> v \<le> hi + st))"
  using assms
proof (induction ks)
  case Nil
  then show ?case by simp
next
  case (Cons key ks)
  then have IH: "valid_loop st config nc gmin gmax ks =
           Inr (\<forall>k\<in>set ks. config k \<noteq> None \<longrightarrow>
                  (\<exists>v lo hi. nc k = Some v \<and> map_of gmin k = Some lo \<and> map_of gmax k = Some hi
                     \<and> lo - st \<le> v \<and> v \<le> hi + st))"
    by simp
  show ?case
  proof (cases "config key = None")
    case True
    then show ?thesis using IH by simp
  next
    case False
    with Cons.prems obtain v lo hi where
      "nc key = Some v" "map_of gmin key = Some lo" "map_of gmax key = Some hi"
      by auto
    then show ?thesis using IH False by auto
  qed
qed

lemma map_of_keys: "k \<in> set (keys d) \<Longrightarrow> map_of d k \<noteq> None"
  by (simp add: keys_def map_of_eq_None_iff)

text \<open>
  C3. \<^verbatim>\<open>_valid(config)\<close> accepts iff every dimension of the global admissible box that
  the configuration has lies, normalised, within \<open>[min - STEPSIZE, max + STEPSIZE]\<close>;
  this holds where the lookups succeed (the normalised configuration has the
  configuration's dimensions and the box's maximum has those of its minimum). With
  the box \<open>[0, 0.3]\<close> on \<open>x\<close> and the slack \<open>0.01\<close>: \<open>0.32\<close> is invalid, \<open>0.305\<close> valid
  and \<open>-0.02\<close> invalid.
\<close>

theorem valid_iff:
  "((\<forall>k\<in>set (keys (gs_admissible_min s)). config k \<noteq> None \<longrightarrow>
        map_of (normalize c config) k \<noteq> None \<and> map_of (gs_admissible_max s) k \<noteq> None) \<longrightarrow>
     valid c s config =
       Inr (\<forall>k\<in>set (keys (gs_admissible_min s)). config k \<noteq> None \<longrightarrow>
              (\<exists>v lo hi. map_of (normalize c config) k = Some v
                 \<and> map_of (gs_admissible_min s) k = Some lo
                 \<and> map_of (gs_admissible_max s) k = Some hi
                 \<and> lo - STEPSIZE c \<le> v \<and> v \<le> hi + STEPSIZE c)))
   \<and> (gs_admissible_min s = [(''x'', 0)] \<and> gs_admissible_max s = [(''x'', 3 / 10)]
        \<and> STEPSIZE c = 1 / 100 \<and> config ''x'' \<noteq> None \<longrightarrow>
        (normalize c config = [(''x'', 32 / 100)] \<longrightarrow> valid c s config = Inr False)
        \<and> (normalize c config = [(''x'', 305 / 1000)] \<longrightarrow> valid c s config = Inr True)
        \<and> (normalize c config = [(''x'', - 2 / 100)] \<longrightarrow> valid c s config = Inr False))"
proof (intro conjI impI)
  assume "\<forall>k\<in>set (keys (gs_admissible_min s)). config k \<noteq> None \<longrightarrow>
        map_of (normalize c config) k \<noteq> None \<and> map_of (gs_admissible_max s) k \<noteq> None"
  then have "\<forall>k\<in>set (keys (gs_admissible_min s)). config k \<noteq> None \<longrightarrow>
        map_of (normalize c config) k \<noteq> None \<and> map_of (gs_admissible_min s) k \<noteq> None
        \<and> map_of (gs_admissible_max s) k \<noteq> None"
    using map_of_keys by fastforce
  then show "valid c s config =
       Inr (\<forall>k\<in>set (keys (gs_admissible_min s)). config k \<noteq> None \<longrightarrow>
              (\<exists>v lo hi. map_of (normalize c config) k = Some v
                 \<and> map_of (gs_admissible_min s) k = Some lo
                 \<and> map_of (gs_admissible_max s) k = Some hi
                 \<and> lo - STEPSIZE c \<le> v \<and> v \<le> hi + STEPSIZE c))"
    unfolding valid_def by (rule valid_loop_spec)
qed (auto simp: valid_def keys_def)

theorem valid_iff_witness:
  "valid demo box_state [''x'' \<mapsto> 32 / 100] = Inr False
   \<and> valid demo box_state [''x'' \<mapsto> 305 / 1000] = Inr True
   \<and> valid demo box_state [''x'' \<mapsto> - 2 / 100] = Inr False
   \<and> valid demo box_state [''y'' \<mapsto> 7] = Inr True"
  using valid_iff [where s = box_state and c = demo and config = "[''x'' \<mapsto> 32 / 100]", THEN conjunct2]
    valid_iff [where s = box_state and c = demo and config = "[''x'' \<mapsto> 305 / 1000]", THEN conjunct2]
    valid_iff [where s = box_state and c = demo and config = "[''x'' \<mapsto> - 2 / 100]", THEN conjunct2]
    valid_iff [where s = box_state and c = demo and config = "[''y'' \<mapsto> 7]", THEN conjunct1]
  by (simp add: box_state_def demo_def construct_def init_search_def keys_def)

subsection \<open>The default creation condition\<close>

lemma filter_length_mono:
  "(\<And>x. P x \<Longrightarrow> Q x) \<Longrightarrow> length (filter P xs) \<le> length (filter Q xs)"
  by (induction xs) auto

lemma sorted_count_le:
  assumes "sorted s" "k < length s"
  shows "k + 1 \<le> length (filter (\<lambda>x. x \<le> s ! k) s)"
proof -
  have "\<forall>x\<in>set (take (k + 1) s). x \<le> s ! k"
    using assms by (auto simp: in_set_conv_nth sorted_nth_mono)
  then have "filter (\<lambda>x. x \<le> s ! k) (take (k + 1) s) = take (k + 1) s"
    by (simp add: filter_id_conv)
  moreover have "length (filter (\<lambda>x. x \<le> s ! k) s)
      = length (filter (\<lambda>x. x \<le> s ! k) (take (k + 1) s))
        + length (filter (\<lambda>x. x \<le> s ! k) (drop (k + 1) s))"
    by (metis append_take_drop_id filter_append length_append)
  ultimately show ?thesis using assms by simp
qed

lemma sorted_count_ge:
  assumes "sorted s" "k < length s"
  shows "length s - k \<le> length (filter (\<lambda>x. s ! k \<le> x) s)"
proof -
  have "\<forall>x\<in>set (drop k s). s ! k \<le> x"
    using assms by (auto simp: in_set_conv_nth sorted_nth_mono)
  then have "filter (\<lambda>x. s ! k \<le> x) (drop k s) = drop k s"
    by (simp add: filter_id_conv)
  moreover have "length (filter (\<lambda>x. s ! k \<le> x) s)
      = length (filter (\<lambda>x. s ! k \<le> x) (take k s))
        + length (filter (\<lambda>x. s ! k \<le> x) (drop k s))"
    by (metis append_take_drop_id filter_append length_append)
  ultimately show ?thesis using assms by simp
qed

lemma length_filter_sort: "length (filter P (sort xs)) = length (filter P (xs::real list))"
  by (simp add: filter_sort)

lemma median_is_median:
  assumes "xs \<noteq> []"
  shows "\<exists>m. median xs = Fin m
            \<and> length xs \<le> 2 * length (filter (\<lambda>x. x \<le> m) xs)
            \<and> length xs \<le> 2 * length (filter (\<lambda>x. m \<le> x) xs)"
proof -
  define s where "s = sort xs"
  define n where "n = length s"
  have srt: "sorted s" and n: "length xs = n" "0 < n"
    using assms by (simp_all add: s_def n_def)
  have ne: "sort xs \<noteq> []"
    using assms by (metis length_sort length_0_conv)
  show ?thesis
  proof (cases "odd n")
    case True
    have k: "n div 2 < length s" using n by (simp add: n_def)
    have m: "median xs = Fin (s ! (n div 2))"
      using True n ne by (simp add: median_def Let_def s_def)
    have "n div 2 + 1 \<le> length (filter (\<lambda>x. x \<le> s ! (n div 2)) xs)"
      using sorted_count_le [OF srt k] by (simp add: s_def length_filter_sort)
    moreover have "n - n div 2 \<le> length (filter (\<lambda>x. s ! (n div 2) \<le> x) xs)"
      using sorted_count_ge [OF srt k] by (simp add: s_def n_def length_filter_sort)
    ultimately show ?thesis using m n by (intro exI [of _ "s ! (n div 2)"]) auto
  next
    case False
    then have n2: "2 \<le> n" using n by presburger
    define a where "a = s ! (n div 2 - 1)"
    define b where "b = s ! (n div 2)"
    define m where "m = (a + b) / 2"
    have ka: "n div 2 - 1 < length s" and kb: "n div 2 < length s"
      using n2 by (simp_all add: n_def)
    have ab: "a \<le> b"
      unfolding a_def b_def using srt kb by (intro sorted_nth_mono) auto
    then have am: "a \<le> m" and mb: "m \<le> b" by (simp_all add: m_def)
    have med: "median xs = Fin m"
      using False n ne by (simp add: median_def Let_def m_def a_def b_def s_def)
    have "n div 2 - 1 + 1 \<le> length (filter (\<lambda>x. x \<le> a) xs)"
      using sorted_count_le [OF srt ka] by (simp add: s_def a_def length_filter_sort)
    moreover have "length (filter (\<lambda>x. x \<le> a) xs) \<le> length (filter (\<lambda>x. x \<le> m) xs)"
      using am by (intro filter_length_mono) auto
    moreover have "n - n div 2 \<le> length (filter (\<lambda>x. b \<le> x) xs)"
      using sorted_count_ge [OF srt kb] by (simp add: s_def b_def n_def length_filter_sort)
    moreover have "length (filter (\<lambda>x. b \<le> x) xs) \<le> length (filter (\<lambda>x. m \<le> x) xs)"
      using mb by (intro filter_length_mono) auto
    ultimately show ?thesis using med n n2 False by (intro exI [of _ m]) auto
  qed
qed

lemma locals_nonempty:
  assumes "distinct (keys pool)" "2 \<le> length pool"
  shows "filter (\<lambda>p. fst p \<noteq> (0::int)) pool \<noteq> []"
proof
  assume "filter (\<lambda>p. fst p \<noteq> 0) pool = []"
  then have "\<forall>p\<in>set pool. fst p = 0" by (auto simp: filter_empty_conv)
  then have "set (keys pool) \<subseteq> {0}" by (auto simp: keys_def)
  then have "card (set (keys pool)) \<le> 1" by (metis card_mono card.empty card_insert_if finite.emptyI finite.insertI insert_absorb insert_not_empty One_nat_def le_SucI order_refl)
  moreover have "card (set (keys pool)) = length (keys pool)"
    using assms(1) by (rule distinct_card)
  moreover have "length (keys pool) = length pool"
    by (simp add: keys_def)
  ultimately show False using assms(2) by simp
qed

text \<open>
  C6. The creation condition of \<^verbatim>\<open>BlendSearch\<close> is true whenever the pool holds fewer
  than 2 threads. Otherwise (the pool's ids being distinct, it then has a local
  thread) it is true iff the result's objective times \<open>metric_op\<close> is strictly below
  the median \<open>m\<close> of \<open>obj_best1\<close> over the threads with a nonzero id; \<open>m\<close> is a median:
  at least half of these values are at most \<open>m\<close> and at least half are at least \<open>m\<close>.
\<close>

theorem create_condition_default:
  "(length (search_thread_pool s) < 2 \<longrightarrow> BlendSearch_create_condition c s r = Inr True)
   \<and> (\<not> length (search_thread_pool s) < 2 \<and> distinct (keys (search_thread_pool s))
        \<and> r (ls_metric c) = Some obj \<longrightarrow>
        (\<exists>m. median (map (\<lambda>p. obj_best1 c (snd p)) (filter (\<lambda>p. fst p \<noteq> 0) (search_thread_pool s))) = Fin m
           \<and> length (filter (\<lambda>p. fst p \<noteq> 0) (search_thread_pool s))
               \<le> 2 * length (filter (\<lambda>p. fst p \<noteq> 0 \<and> obj_best1 c (snd p) \<le> m) (search_thread_pool s))
           \<and> length (filter (\<lambda>p. fst p \<noteq> 0) (search_thread_pool s))
               \<le> 2 * length (filter (\<lambda>p. fst p \<noteq> 0 \<and> m \<le> obj_best1 c (snd p)) (search_thread_pool s))
           \<and> BlendSearch_create_condition c s r = Inr (obj * metric_op c < m)))"
proof (intro conjI impI)
  assume "length (search_thread_pool s) < 2"
  then show "BlendSearch_create_condition c s r = Inr True"
    by (simp add: BlendSearch_create_condition_def)
next
  assume h: "\<not> length (search_thread_pool s) < 2 \<and> distinct (keys (search_thread_pool s))
        \<and> r (ls_metric c) = Some obj"
  define locals where "locals = filter (\<lambda>p. fst p \<noteq> 0) (search_thread_pool s)"
  define objs where "objs = map (\<lambda>p. obj_best1 c (snd p)) locals"
  have "locals \<noteq> []"
    unfolding locals_def using h by (intro locals_nonempty) auto
  then have "objs \<noteq> []" by (simp add: objs_def)
  from median_is_median [OF this] obtain m where
    m: "median objs = Fin m"
       "length objs \<le> 2 * length (filter (\<lambda>x. x \<le> m) objs)"
       "length objs \<le> 2 * length (filter (\<lambda>x. m \<le> x) objs)"
    by blast
  have f1: "length (filter (\<lambda>x. x \<le> m) objs)
              = length (filter (\<lambda>p. fst p \<noteq> 0 \<and> obj_best1 c (snd p) \<le> m) (search_thread_pool s))"
    by (simp add: objs_def locals_def filter_map o_def conj_commute)
  have f2: "length (filter (\<lambda>x. m \<le> x) objs)
              = length (filter (\<lambda>p. fst p \<noteq> 0 \<and> m \<le> obj_best1 c (snd p)) (search_thread_pool s))"
    by (simp add: objs_def locals_def filter_map o_def conj_commute)
  have cc: "BlendSearch_create_condition c s r = Inr (obj * metric_op c < m)"
    using h m(1) by (simp add: BlendSearch_create_condition_def Let_def objs_def locals_def)
  show "\<exists>m. median (map (\<lambda>p. obj_best1 c (snd p)) (filter (\<lambda>p. fst p \<noteq> 0) (search_thread_pool s))) = Fin m
           \<and> length (filter (\<lambda>p. fst p \<noteq> 0) (search_thread_pool s))
               \<le> 2 * length (filter (\<lambda>p. fst p \<noteq> 0 \<and> obj_best1 c (snd p) \<le> m) (search_thread_pool s))
           \<and> length (filter (\<lambda>p. fst p \<noteq> 0) (search_thread_pool s))
               \<le> 2 * length (filter (\<lambda>p. fst p \<noteq> 0 \<and> m \<le> obj_best1 c (snd p)) (search_thread_pool s))
           \<and> BlendSearch_create_condition c s r = Inr (obj * metric_op c < m)"
    using m cc f1 f2 by (intro exI [of _ m]) (simp add: objs_def locals_def)
qed

theorem create_condition_default_witness:
  "BlendSearch_create_condition demo (construct demo () ''loss'' [] False [] []) [''loss'' \<mapsto> 9] = Inr True
   \<and> median [5, 3, 1] = Fin 3
   \<and> BlendSearch_create_condition demo pool_state [''loss'' \<mapsto> 2] = Inr True
   \<and> BlendSearch_create_condition demo pool_state [''loss'' \<mapsto> 3] = Inr False"
  using create_condition_default [of "construct demo () ''loss'' [] False [] []" demo "[''loss'' \<mapsto> 9]" 9]
    create_condition_default [of pool_state demo "[''loss'' \<mapsto> 2]" 2]
    create_condition_default [of pool_state demo "[''loss'' \<mapsto> 3]" 3]
  by (simp add: pool_state_def demo_def construct_def init_search_def keys_def median_def)

subsection \<open>Bootstrap mode of suggest\<close>

text \<open>
  C8. In bootstrap mode (for \<^verbatim>\<open>CFO\<close>: with fewer than 3 threads, and with fewer
  than 2 threads always) \<^verbatim>\<open>suggest\<close> completes the next initial point. When its
  signature is cached, with a resolved result or with the empty placeholder, no
  configuration is returned and the cache, the trial owners and the pool are left as
  they are. Only when the signature is not cached is the placeholder cached, thread
  0 made the owner, and the completed configuration returned.
\<close>

theorem suggest_bootstrap:
  assumes mode: "(cls c = BlendSearch \<and> \<not> (init_used s \<and> points_to_evaluate s = []))
                 \<or> (cls c = CFO \<and> length (search_thread_pool s) < 3
                      \<and> (length (search_thread_pool s) < 2 \<or> \<not> (init_used s \<and> points_to_evaluate s = [])))"
    and cc: "complete_config c (ls s)
               (case points_to_evaluate s of [] \<Rightarrow> init_config c | p # ps \<Rightarrow> p)
               (ls_bound_min s) (ls_bound_max s) = (config, l)"
  shows "(\<forall>xr. result_cache s (config_signature c config) = Some xr \<longrightarrow>
            (\<exists>s'. suggest c s trial_id now = Inr (None, s')
                  \<and> result_cache s' = result_cache s
                  \<and> trial_proposed_by s' = trial_proposed_by s
                  \<and> search_thread_pool s' = search_thread_pool s))
       \<and> (result_cache s (config_signature c config) = None \<and> map_of (search_thread_pool s) 0 \<noteq> None \<longrightarrow>
            (\<exists>s'. suggest c s trial_id now = Inr (Some config, s')
                  \<and> result_cache s' = (result_cache s)(config_signature c config \<mapsto> Map.empty)
                  \<and> trial_proposed_by s' = (trial_proposed_by s)(trial_id \<mapsto> 0)
                  \<and> init_used s'))"
  using mode cc
  by (auto simp: suggest_def BlendSearch_suggest_def CFO_suggest_def bootstrap_suggest_def Let_def
           split: variant.splits list.splits option.splits)

theorem suggest_bootstrap_witness:
  "(\<exists>s'. suggest demo (construct demo () ''loss'' [] False [] []) ''t1'' 0 = Inr (Some [''x'' \<mapsto> 0], s')
         \<and> result_cache s' = [Some 0 \<mapsto> Map.empty]
         \<and> trial_proposed_by s' = [''t1'' \<mapsto> 0])
   \<and> (\<exists>s'. suggest demo (cached_state [''loss'' \<mapsto> Fin 1]) ''t2'' 0 = Inr (None, s')
         \<and> result_cache s' = [Some (1 / 4) \<mapsto> [''loss'' \<mapsto> Fin 1]])
   \<and> (\<exists>s'. suggest demo (cached_state Map.empty) ''t2'' 0 = Inr (None, s')
         \<and> result_cache s' = [Some (1 / 4) \<mapsto> Map.empty])"
  using suggest_bootstrap [of demo "construct demo () ''loss'' [] False [] []" "[''x'' \<mapsto> 0]" "()" "''t1''" 0]
    suggest_bootstrap [of demo "cached_state [''loss'' \<mapsto> Fin 1]" "[''x'' \<mapsto> 1 / 4]" "()" "''t2''" 0]
    suggest_bootstrap [of demo "cached_state Map.empty" "[''x'' \<mapsto> 1 / 4]" "()" "''t2''" 0]
  apply (simp add: cached_state_def demo_def construct_def init_search_def)
  apply blast
  done

subsection \<open>Frames of thread creation and pruning\<close>

lemma prune_frame_refl: "prune_frame s s"
  by (simp add: prune_frame_def)

lemma prune_frame_trans: "prune_frame s s1 \<Longrightarrow> prune_frame s1 s2 \<Longrightarrow> prune_frame s s2"
  by (simp add: prune_frame_def)

lemma expand_frame: "expand_admissible_region c s = Inr s' \<Longrightarrow> prune_frame s s'"
  by (auto simp: expand_admissible_region_def prune_frame_def split: sum.splits)

lemma expand_pool:
  "expand_admissible_region c s = Inr s' \<Longrightarrow>
     search_thread_pool s' = search_thread_pool s \<and> thread_count s' = thread_count s
     \<and> candidate_start_points s' = candidate_start_points s
     \<and> started_from_given s' = started_from_given s
     \<and> started_from_low_cost s' = started_from_low_cost s \<and> ls s' = ls s"
  by (auto simp: expand_admissible_region_def split: sum.splits)

lemma create_thread_frame: "create_thread c s config r = Inr s' \<Longrightarrow> prune_frame s s'"
  by (auto simp: create_thread_def prune_frame_def Let_def split: sum.splits option.splits)

lemma best_candidate_frame:
  "create_thread_from_best_candidate c s = Inr s' \<Longrightarrow> prune_frame s s'"
  by (auto simp: create_thread_from_best_candidate_def prune_frame_def
           dest!: create_thread_frame split: sum.splits option.splits if_splits)

lemma clean_candidates_frame: "clean_candidates c s t = Inr (s', b) \<Longrightarrow> prune_frame s s'"
  by (auto simp: clean_candidates_def prune_frame_def split: sum.splits option.splits if_splits)

lemma clean_frame: "clean c s i = Inr s' \<Longrightarrow> prune_frame s s'"
  unfolding clean_def Let_def
  by (auto split: sum.splits option.splits if_splits prod.splits
           dest!: expand_frame clean_candidates_frame best_candidate_frame
           simp: prune_frame_def)

subsection \<open>The metric constraints of a completion\<close>

lemma constraint_loop_step:
  "constraint_loop r op i (con # cs) (obj, sat, Some ps) =
     (if violates r con then
        (if i < length ps then
           constraint_loop r op (Suc i) cs
             (obj + ps ! i * violation con (the (r (fst con))) * op, False,
              Some (if ps ! i < penalty then ps[i := ps ! i + violation con (the (r (fst con)))] else ps))
         else Inl IndexError)
      else constraint_loop r op (Suc i) cs (obj, sat, Some ps))"
  by (auto simp: violates_def violation_def Let_def split: option.splits)

lemma constraint_loop_spec:
  assumes "i + length cs \<le> length ps"
  shows "\<exists>ps'. constraint_loop r op i cs (obj, sat, Some ps) =
           Inr (obj + penalty_terms r op (drop i ps) cs,
                sat \<and> (\<forall>con\<in>set cs. \<not> violates r con), Some ps')
         \<and> length ps' = length ps
         \<and> ((\<forall>con\<in>set cs. \<not> violates r con) \<longrightarrow> ps' = ps)"
  using assms
proof (induction cs arbitrary: i obj sat ps)
  case Nil
  then show ?case by (cases "drop i ps") simp_all
next
  case (Cons con cs)
  then have i: "i < length ps" by simp
  then have dr: "drop i ps = ps ! i # drop (Suc i) ps"
    by (simp add: Cons_nth_drop_Suc)
  show ?case
  proof (cases "violates r con")
    case False
    from Cons.prems have "Suc i + length cs \<le> length ps" by simp
    from Cons.IH [OF this, of obj sat] obtain ps' where
      "constraint_loop r op (Suc i) cs (obj, sat, Some ps) =
           Inr (obj + penalty_terms r op (drop (Suc i) ps) cs,
                sat \<and> (\<forall>con\<in>set cs. \<not> violates r con), Some ps')"
      "length ps' = length ps" "(\<forall>con\<in>set cs. \<not> violates r con) \<longrightarrow> ps' = ps"
      by blast
    then show ?thesis using False dr
      by (simp add: constraint_loop_step del: constraint_loop.simps)
  next
    case True
    define w where "w = violation con (the (r (fst con)))"
    define ps1 where "ps1 = (if ps ! i < penalty then ps[i := ps ! i + w] else ps)"
    have l1: "length ps1 = length ps" and d1: "drop (Suc i) ps1 = drop (Suc i) ps"
      by (simp_all add: ps1_def)
    from Cons.prems l1 have "Suc i + length cs \<le> length ps1" by simp
    from Cons.IH [OF this, of "obj + ps ! i * w * op" False] obtain ps' where
      "constraint_loop r op (Suc i) cs (obj + ps ! i * w * op, False, Some ps1) =
           Inr (obj + ps ! i * w * op + penalty_terms r op (drop (Suc i) ps1) cs,
                False \<and> (\<forall>con\<in>set cs. \<not> violates r con), Some ps')"
      "length ps' = length ps1"
      by blast
    moreover have "constraint_loop r op i (con # cs) (obj, sat, Some ps)
        = constraint_loop r op (Suc i) cs (obj + ps ! i * w * op, False, Some ps1)"
      using True i by (simp add: constraint_loop_step w_def ps1_def del: constraint_loop.simps)
    ultimately show ?thesis using True dr l1 d1
      by (simp add: w_def del: constraint_loop.simps)
  qed
qed

lemma account_constraints_spec:
  assumes "r \<noteq> Map.empty" "metric_constraints s \<noteq> []" "r (metric s) = Some obj0"
    and "metric_constraint_penalty s = Some ps" "length (metric_constraints s) \<le> length ps"
  shows "\<exists>s'. account_constraints c s (Some r) False =
           Inr (\<forall>con\<in>set (metric_constraints s). \<not> violates r con,
                Some (r(metric s @ lagrange \<mapsto> obj0 + penalty_terms r (metric_op c) ps (metric_constraints s))),
                s')
         \<and> metric_constraint_satisfied s' =
             (metric_constraint_satisfied s \<or> (\<forall>con\<in>set (metric_constraints s). \<not> violates r con))
         \<and> ((\<forall>con\<in>set (metric_constraints s). \<not> violates r con) \<longrightarrow>
               metric_constraint_penalty s' =
                 (if metric_constraint_satisfied s then Some ps
                  else Some (map (\<lambda>_. 1) (metric_constraints s))))
         \<and> (\<exists>ps'. metric_constraint_penalty s' = Some ps')
         \<and> s' = s\<lparr>metric_constraint_penalty := metric_constraint_penalty s',
                   metric_constraint_satisfied := metric_constraint_satisfied s'\<rparr>"
proof -
  from assms(5) have "0 + length (metric_constraints s) \<le> length ps" by simp
  from constraint_loop_spec [OF this, of r "metric_op c" obj0 True] obtain ps' where
    "constraint_loop r (metric_op c) 0 (metric_constraints s) (obj0, True, Some ps) =
       Inr (obj0 + penalty_terms r (metric_op c) ps (metric_constraints s),
            \<forall>con\<in>set (metric_constraints s). \<not> violates r con, Some ps')"
    "(\<forall>con\<in>set (metric_constraints s). \<not> violates r con) \<longrightarrow> ps' = ps"
    by auto
  then show ?thesis using assms
    by (auto simp: account_constraints_def truthy_def)
qed

subsection \<open>The effect of a completion\<close>

lemma prune_constraint_frame: "prune_frame s s' \<Longrightarrow> constraint_frame s s'"
  by (simp add: prune_frame_def constraint_frame_def)

lemma constraint_frame_trans:
  "constraint_frame s s1 \<Longrightarrow> constraint_frame s1 s2 \<Longrightarrow> constraint_frame s s2"
  by (simp add: constraint_frame_def)

lemma account_constraints_frame:
  assumes "account_constraints c s ro err = Inr (sat, ro1, s1)"
  shows "metric s1 = metric s \<and> points_to_evaluate s1 = points_to_evaluate s
         \<and> config_constraints s1 = config_constraints s \<and> metric_constraints s1 = metric_constraints s
         \<and> candidate_start_points s1 = candidate_start_points s
         \<and> started_from_given s1 = started_from_given s
         \<and> started_from_low_cost s1 = started_from_low_cost s \<and> ls s1 = ls s
         \<and> metric_target s1 = metric_target s \<and> search_thread_pool s1 = search_thread_pool s
         \<and> thread_count s1 = thread_count s \<and> init_used s1 = init_used s
         \<and> trial_proposed_by s1 = trial_proposed_by s
         \<and> ls_bound_min s1 = ls_bound_min s \<and> ls_bound_max s1 = ls_bound_max s
         \<and> gs_admissible_min s1 = gs_admissible_min s \<and> gs_admissible_max s1 = gs_admissible_max s
         \<and> result_cache s1 = result_cache s \<and> deadline s1 = deadline s
         \<and> truthy ro1 = truthy ro
         \<and> (metric_constraint_satisfied s \<longrightarrow> metric_constraint_satisfied s1)
         \<and> (err \<or> \<not> truthy ro \<or> metric_constraints s = [] \<longrightarrow> ro1 = ro \<and> s1 = s \<and> sat)"
  using assms
  by (auto simp: account_constraints_def truthy_def split: if_splits option.splits sum.splits)

lemma deliver_effect:
  "fst (deliver c s trial_id ro err) = trial_proposed_by s trial_id
   \<and> snd (deliver c s trial_id ro err) =
       s\<lparr>search_thread_pool := search_thread_pool (snd (deliver c s trial_id ro err)),
         trial_proposed_by := trial_proposed_by (snd (deliver c s trial_id ro err))\<rparr>
   \<and> (trial_proposed_by (snd (deliver c s trial_id ro err)) = trial_proposed_by s
        \<or> trial_proposed_by (snd (deliver c s trial_id ro err)) = (trial_proposed_by s)(trial_id := None))
   \<and> (trial_proposed_by s trial_id = None \<longrightarrow> snd (deliver c s trial_id ro err) = s)"
  by (auto simp: deliver_def split: option.splits)

lemma deliver_frame: "constraint_frame s (snd (deliver c s trial_id ro err))"
  by (auto simp: deliver_def constraint_frame_def split: option.splits)

lemma deliver_cache: "result_cache (snd (deliver c s trial_id ro err)) = result_cache s"
  by (auto simp: deliver_def split: option.splits)

lemma spawn_frame: "spawn c s trial_id config r = Inr s' \<Longrightarrow> prune_frame s s'"
  by (auto simp: spawn_def Let_def prune_frame_def dest!: create_thread_frame split: if_splits)

lemma sync_frame:
  "constraint_frame s (sync_admissible s) \<and> result_cache (sync_admissible s) = result_cache s
   \<and> trial_proposed_by (sync_admissible s) = trial_proposed_by s
   \<and> search_thread_pool (sync_admissible s) = search_thread_pool s
   \<and> thread_count (sync_admissible s) = thread_count s
   \<and> metric_target (sync_admissible s) = metric_target s
   \<and> ls_bound_min (sync_admissible s) = ls_bound_min s
   \<and> ls_bound_max (sync_admissible s) = ls_bound_max s"
  by (simp add: sync_admissible_def constraint_frame_def)

lemma record_result_effect:
  assumes "record_result c s trial_id thread_id r err sat = Inr (th, s')"
  shows "constraint_frame s s' \<and> trial_proposed_by s' = trial_proposed_by s
         \<and> result_cache s' =
             (if err then (result_cache s)(config_signature c (config_of r) := None)
              else (result_cache s)(config_signature c (config_of r) \<mapsto> of_result r))
         \<and> (err \<longrightarrow> result_cache s (config_signature c (config_of r)) \<noteq> None)"
  using assms unfolding record_result_def Let_def
  by (auto split: if_splits option.splits sum.splits bool.splits
           dest!: spawn_frame expand_frame
           simp: prune_frame_def constraint_frame_def sync_admissible_def)

lemma BlendSearch_on_trial_complete_phases:
  assumes "BlendSearch_on_trial_complete c s trial_id ro err = Inr (ro1, s')"
  shows "\<exists>sat s1 th s3. account_constraints c s ro err = Inr (sat, ro1, s1)
           \<and> (if truthy ro1
                then record_result c (snd (deliver c s1 trial_id ro1 err)) trial_id
                       (fst (deliver c s1 trial_id ro1 err)) (the ro1) err sat
                else Inr (deliver c s1 trial_id ro1 err)) = Inr (th, s3)
           \<and> (s' = s3 \<or> (\<exists>i. th = Some i \<and> i \<noteq> 0 \<and> map_of (search_thread_pool s3) i \<noteq> None
                              \<and> clean c s3 i = Inr s'))"
  using assms unfolding BlendSearch_on_trial_complete_def
  by (auto split: sum.splits prod.splits option.splits if_splits)

lemma BlendSearch_on_trial_complete_effect:
  assumes "BlendSearch_on_trial_complete c s trial_id ro err = Inr (ro1, s')"
  shows "\<exists>sat s1. account_constraints c s ro err = Inr (sat, ro1, s1)
           \<and> constraint_frame s1 s'
           \<and> (trial_proposed_by s' = trial_proposed_by s
                \<or> trial_proposed_by s' = (trial_proposed_by s)(trial_id := None))
           \<and> result_cache s' =
               (if truthy ro then
                  (if err then (result_cache s)(config_signature c (config_of (the ro1)) := None)
                   else (result_cache s)(config_signature c (config_of (the ro1)) \<mapsto> of_result (the ro1)))
                else result_cache s)
           \<and> (truthy ro \<and> err \<longrightarrow> result_cache s (config_signature c (config_of (the ro1))) \<noteq> None)"
proof -
  from BlendSearch_on_trial_complete_phases [OF assms] obtain sat s1 th s3 where
    ac: "account_constraints c s ro err = Inr (sat, ro1, s1)"
    and rr: "(if truthy ro1
                then record_result c (snd (deliver c s1 trial_id ro1 err)) trial_id
                       (fst (deliver c s1 trial_id ro1 err)) (the ro1) err sat
                else Inr (deliver c s1 trial_id ro1 err)) = Inr (th, s3)"
    and cl: "s' = s3 \<or> (\<exists>i. th = Some i \<and> i \<noteq> 0 \<and> map_of (search_thread_pool s3) i \<noteq> None
                              \<and> clean c s3 i = Inr s')"
    by blast
  note af = account_constraints_frame [OF ac]
  define d where "d = deliver c s1 trial_id ro1 err"
  have d1: "constraint_frame s1 (snd d)" "result_cache (snd d) = result_cache s1"
    "trial_proposed_by (snd d) = trial_proposed_by s1
       \<or> trial_proposed_by (snd d) = (trial_proposed_by s1)(trial_id := None)"
    using deliver_frame [of s1 c trial_id ro1 err] deliver_cache [of c s1 trial_id ro1 err]
      deliver_effect [of c s1 trial_id ro1 err]
    by (simp_all add: d_def)
  have s1: "result_cache s1 = result_cache s" "trial_proposed_by s1 = trial_proposed_by s"
    and tr: "truthy ro1 = truthy ro"
    using af by simp_all
  have rr': "(if truthy ro1 then record_result c (snd d) trial_id (fst d) (the ro1) err sat
          else Inr d) = Inr (th, s3)"
    unfolding d_def by (rule rr)
  have s3: "constraint_frame s1 s3"
       "trial_proposed_by s3 = trial_proposed_by (snd d)"
       "result_cache s3 =
               (if truthy ro then
                  (if err then (result_cache s)(config_signature c (config_of (the ro1)) := None)
                   else (result_cache s)(config_signature c (config_of (the ro1)) \<mapsto> of_result (the ro1)))
                else result_cache s)"
       "truthy ro \<and> err \<longrightarrow> result_cache s (config_signature c (config_of (the ro1))) \<noteq> None"
  proof -
    show "constraint_frame s1 s3"
      using rr' d1(1) by (auto split: if_splits dest!: record_result_effect intro: constraint_frame_trans)
    show "trial_proposed_by s3 = trial_proposed_by (snd d)"
      using rr' by (auto split: if_splits dest!: record_result_effect)
    show "result_cache s3 =
               (if truthy ro then
                  (if err then (result_cache s)(config_signature c (config_of (the ro1)) := None)
                   else (result_cache s)(config_signature c (config_of (the ro1)) \<mapsto> of_result (the ro1)))
                else result_cache s)"
      using rr' d1(2) s1(1) tr by (auto split: if_splits dest!: record_result_effect)
    show "truthy ro \<and> err \<longrightarrow> result_cache s (config_signature c (config_of (the ro1))) \<noteq> None"
      using rr' d1(2) s1(1) tr by (auto split: if_splits dest!: record_result_effect)
  qed
  have fin: "prune_frame s3 s'"
    using cl by (auto dest!: clean_frame simp: prune_frame_refl)
  have "constraint_frame s1 s'"
    using s3(1) fin by (simp add: prune_frame_def constraint_frame_def)
  moreover have "trial_proposed_by s' = trial_proposed_by s3" "result_cache s' = result_cache s3"
    using fin by (simp_all add: prune_frame_def)
  ultimately show ?thesis
    using ac s3(2,3,4) d1(3) s1
    by (intro exI [of _ sat] exI [of _ s1]) simp
qed

subsection \<open>Frames of suggest\<close>

lemma prune_suggest_frame: "prune_frame s s' \<Longrightarrow> suggest_frame s s'"
  by (simp add: prune_frame_def suggest_frame_def)

lemma suggest_frame_refl: "suggest_frame s s"
  by (simp add: suggest_frame_def)

lemma suggest_frame_trans: "suggest_frame s s1 \<Longrightarrow> suggest_frame s1 s2 \<Longrightarrow> suggest_frame s s2"
  by (simp add: suggest_frame_def)

lemma should_skip_frame:
  "should_skip c s choice trial_id co = Inr (b, s') \<Longrightarrow> suggest_frame s s'"
  unfolding should_skip_def Let_def
  by (auto split: option.splits if_splits sum.splits dest!: clean_frame
           simp: suggest_frame_def prune_frame_def)

lemma select_thread_frame:
  "select_thread c s now = Inr (p, s') \<Longrightarrow> suggest_frame s s'"
  by (auto simp: select_thread_def BlendSearch_select_thread_def CFO_select_thread_def Let_def
                 suggest_frame_def
           split: variant.splits option.splits list.splits)

lemma propose_frame: "propose c s choice config = Inr (co, s') \<Longrightarrow> suggest_frame s s'"
  by (auto simp: propose_def Let_def suggest_frame_def sync_admissible_def
           split: if_splits sum.splits)

lemma ask_frame: "ask c s i trial_id = Inr (co, s') \<Longrightarrow> suggest_frame s s'"
  by (auto simp: ask_def suggest_frame_def split: option.splits)

lemma accept_frame:
  "accept c s choice backup trial_id config = Inr (co, s') \<Longrightarrow> suggest_frame s s'"
  unfolding accept_def Let_def
  by (auto split: if_splits sum.splits bool.splits option.splits
           dest!: propose_frame ask_frame should_skip_frame
           simp: suggest_frame_def)

lemma steady_suggest_frame:
  "steady_suggest c s trial_id now = Inr (co, s') \<Longrightarrow> suggest_frame s s'"
  unfolding steady_suggest_def Let_def
  by (auto split: if_splits sum.splits option.splits
           dest!: select_thread_frame ask_frame should_skip_frame accept_frame expand_frame
           simp: suggest_frame_def prune_frame_def)

lemma bootstrap_suggest_frame:
  "bootstrap_suggest c s trial_id = Inr (co, s') \<Longrightarrow> suggest_frame s s'"
  unfolding bootstrap_suggest_def Let_def
  by (auto split: if_splits option.splits simp: suggest_frame_def)

lemma suggest_suggest_frame:
  "suggest c s trial_id now = Inr (co, s') \<Longrightarrow> suggest_frame s s'"
  by (auto simp: suggest_def BlendSearch_suggest_def CFO_suggest_def
           split: variant.splits if_splits
           dest!: steady_suggest_frame bootstrap_suggest_frame
           simp: suggest_frame_def)

lemma on_trial_result_frame:
  "on_trial_result c s trial_id r = Inr s' \<Longrightarrow> suggest_frame s s'"
  by (auto simp: on_trial_result_def suggest_frame_def split: option.splits if_splits sum.splits)

lemma on_trial_complete_effect:
  assumes "on_trial_complete c s trial_id ro err = Inr s'"
  shows "\<exists>sat ro1 s1. account_constraints c s ro err = Inr (sat, ro1, s1)
           \<and> constraint_frame s1 s'
           \<and> (trial_proposed_by s' = trial_proposed_by s
                \<or> trial_proposed_by s' = (trial_proposed_by s)(trial_id := None))
           \<and> result_cache s' =
               (if truthy ro then
                  (if err then (result_cache s)(config_signature c (config_of (the ro1)) := None)
                   else (result_cache s)(config_signature c (config_of (the ro1)) \<mapsto> of_result (the ro1)))
                else result_cache s)
           \<and> (truthy ro \<and> err \<longrightarrow> result_cache s (config_signature c (config_of (the ro1))) \<noteq> None)"
proof -
  from assms obtain ro1 s2 where
    b: "BlendSearch_on_trial_complete c s trial_id ro err = Inr (ro1, s2)"
    and f: "s' = s2 \<or> prune_frame (s2\<lparr>candidate_start_points := Some (AList.update trial_id ro1 (cands s2))\<rparr>) s'
            \<or> s' = s2\<lparr>candidate_start_points := Some (AList.update trial_id ro1 (cands s2))\<rparr>"
    unfolding on_trial_complete_def CFO_on_trial_complete_def Let_def
    by (auto split: variant.splits sum.splits if_splits dest!: best_candidate_frame)
  from f have fr: "constraint_frame s2 s'" "trial_proposed_by s' = trial_proposed_by s2"
     "result_cache s' = result_cache s2"
    by (auto simp: prune_frame_def constraint_frame_def)
  from BlendSearch_on_trial_complete_effect [OF b] obtain sat s1 where
    e: "account_constraints c s ro err = Inr (sat, ro1, s1)"
       "constraint_frame s1 s2"
       "trial_proposed_by s2 = trial_proposed_by s
                \<or> trial_proposed_by s2 = (trial_proposed_by s)(trial_id := None)"
       "result_cache s2 =
               (if truthy ro then
                  (if err then (result_cache s)(config_signature c (config_of (the ro1)) := None)
                   else (result_cache s)(config_signature c (config_of (the ro1)) \<mapsto> of_result (the ro1)))
                else result_cache s)"
       "truthy ro \<and> err \<longrightarrow> result_cache s (config_signature c (config_of (the ro1))) \<noteq> None"
    by blast
  have "constraint_frame s1 s'"
    using e(2) fr(1) by (rule constraint_frame_trans)
  then show ?thesis
    using e fr by (intro exI [of _ sat] exI [of _ ro1] exI [of _ s1]) simp
qed

lemma step_keeps_satisfied:
  assumes "step c s a = Inr s'" "metric_constraint_satisfied s"
  shows "metric_constraint_satisfied s'"
proof (cases a)
  case (Suggest trial_id now)
  with assms show ?thesis
    by (auto simp: step_def split: sum.splits dest!: suggest_suggest_frame simp: suggest_frame_def)
next
  case (Result trial_id r)
  with assms show ?thesis
    by (auto simp: step_def dest!: on_trial_result_frame simp: suggest_frame_def)
next
  case (Complete trial_id ro err)
  with assms have "on_trial_complete c s trial_id ro err = Inr s'"
    by (simp add: step_def)
  from on_trial_complete_effect [OF this] obtain sat ro1 s1 where
    "account_constraints c s ro err = Inr (sat, ro1, s1)" "constraint_frame s1 s'"
    by blast
  then show ?thesis
    using assms(2) account_constraints_frame [of c s ro err sat ro1 s1]
    by (simp add: constraint_frame_def)
qed

lemma run_keeps_satisfied:
  "run c s as = Inr s' \<Longrightarrow> metric_constraint_satisfied s \<Longrightarrow> metric_constraint_satisfied s'"
proof (induction as arbitrary: s)
  case Nil
  then show ?case by simp
next
  case (Cons a as)
  then obtain s1 where "step c s a = Inr s1" "run c s1 as = Inr s'"
    by (auto split: sum.splits)
  then show ?case using Cons.IH Cons.prems(2) step_keeps_satisfied by blast
qed

subsection \<open>Penalties of the metric constraints\<close>

lemma account_constraints_metric:
  assumes "account_constraints c s (Some r) False = Inr x" "r \<noteq> Map.empty" "metric_constraints s \<noteq> []"
  shows "r (metric s) \<noteq> None"
  using assms by (auto simp: account_constraints_def truthy_def split: option.splits)

lemma completion_constraints:
  assumes r: "r \<noteq> Map.empty" and mcs: "metric_constraints s \<noteq> []"
    and ps: "metric_constraint_penalty s = Some ps" "length (metric_constraints s) \<le> length ps"
    and otc: "on_trial_complete c s trial_id (Some r) False = Inr s'"
  shows "\<exists>obj0 r1 s1. r (metric s) = Some obj0
           \<and> r1 = r(metric s @ lagrange \<mapsto> obj0 + penalty_terms r (metric_op c) ps (metric_constraints s))
           \<and> account_constraints c s (Some r) False =
               Inr (\<forall>con\<in>set (metric_constraints s). \<not> violates r con, Some r1, s1)
           \<and> result_cache s' (config_signature c (config_of r1)) = Some (of_result r1)
           \<and> metric_constraints s' = metric_constraints s
           \<and> (\<exists>ps'. metric_constraint_penalty s' = Some ps')
           \<and> metric_constraint_satisfied s' =
               (metric_constraint_satisfied s \<or> (\<forall>con\<in>set (metric_constraints s). \<not> violates r con))
           \<and> ((\<forall>con\<in>set (metric_constraints s). \<not> violates r con) \<longrightarrow>
                 metric_constraint_penalty s' =
                   (if metric_constraint_satisfied s then Some ps
                    else Some (map (\<lambda>_. 1) (metric_constraints s))))"
proof -
  from on_trial_complete_effect [OF otc] obtain sat ro1 s1 where
    e: "account_constraints c s (Some r) False = Inr (sat, ro1, s1)"
       "constraint_frame s1 s'"
       "result_cache s' =
               (if truthy (Some r) then
                  (if False then (result_cache s)(config_signature c (config_of (the ro1)) := None)
                   else (result_cache s)(config_signature c (config_of (the ro1)) \<mapsto> of_result (the ro1)))
                else result_cache s)"
    by blast
  from account_constraints_metric [OF e(1) r mcs] obtain obj0 where o: "r (metric s) = Some obj0"
    by blast
  define r1 where "r1 = r(metric s @ lagrange \<mapsto> obj0 + penalty_terms r (metric_op c) ps (metric_constraints s))"
  from account_constraints_spec [OF r mcs o ps, of c] obtain s1' where
    a: "account_constraints c s (Some r) False =
           Inr (\<forall>con\<in>set (metric_constraints s). \<not> violates r con, Some r1, s1')"
       "metric_constraint_satisfied s1' =
             (metric_constraint_satisfied s \<or> (\<forall>con\<in>set (metric_constraints s). \<not> violates r con))"
       "(\<forall>con\<in>set (metric_constraints s). \<not> violates r con) \<longrightarrow>
               metric_constraint_penalty s1' =
                 (if metric_constraint_satisfied s then Some ps
                  else Some (map (\<lambda>_. 1) (metric_constraints s)))"
       "\<exists>ps'. metric_constraint_penalty s1' = Some ps'"
    unfolding r1_def by blast
  from a(1) e(1) have eq: "ro1 = Some r1" "s1 = s1'" by simp_all
  have m: "metric_constraints s1' = metric_constraints s"
    using account_constraints_frame [OF a(1)] by simp
  have "result_cache s' (config_signature c (config_of r1)) = Some (of_result r1)"
    using e(3) r eq by (simp add: truthy_def)
  then show ?thesis
    using o a e(2) eq m r1_def
    by (intro exI [of _ obj0] exI [of _ r1] exI [of _ s1']) (simp add: constraint_frame_def)
qed

lemma constraint_loop_skipped:
  "\<forall>con\<in>set cs. r (fst con) = None \<or> r (fst con) = Some 0 \<Longrightarrow> constraint_loop r op i cs acc = Inr acc"
  by (induction cs arbitrary: i) auto


text \<open>
  C1. A completion with a non-empty result and no error, under metric constraints
  (with a penalty weight for each), records under the metric's \<^verbatim>\<open>_lagrange\<close> name the
  objective plus, for each violated constraint, its penalty weight times its
  violation times \<open>metric_op\<close>; the local flag is true iff no constraint is violated.
  The first completion without a violation sets every penalty weight to 1 and the
  satisfied flag, which then stays true over every later call. With the constraint
  \<^verbatim>\<open>accuracy >= 0.9\<close> and the penalty \<open>10^10\<close>: \<open>accuracy = 0.8\<close> adds
  \<open>10^10 * 0.1 * metric_op\<close> and leaves the flag as it was; \<open>accuracy = 0.95\<close> sets the
  weight to 1 and the flag for good.
\<close>

theorem metric_constraint_penalty_completion:
  "(r \<noteq> Map.empty \<and> metric_constraints s \<noteq> [] \<and> metric_constraint_penalty s = Some ps
      \<and> length (metric_constraints s) \<le> length ps
      \<and> on_trial_complete c s trial_id (Some r) False = Inr s' \<longrightarrow>
      (\<exists>obj0 r1 s1. r (metric s) = Some obj0
           \<and> r1 = r(metric s @ lagrange \<mapsto> obj0 + penalty_terms r (metric_op c) ps (metric_constraints s))
           \<and> account_constraints c s (Some r) False =
               Inr (\<forall>con\<in>set (metric_constraints s). \<not> violates r con, Some r1, s1)
           \<and> result_cache s' (config_signature c (config_of r1)) = Some (of_result r1)
           \<and> metric_constraint_satisfied s' =
               (metric_constraint_satisfied s \<or> (\<forall>con\<in>set (metric_constraints s). \<not> violates r con))
           \<and> ((\<forall>con\<in>set (metric_constraints s). \<not> violates r con) \<and> \<not> metric_constraint_satisfied s \<longrightarrow>
                 metric_constraint_penalty s' = Some (map (\<lambda>_. 1) (metric_constraints s)))))
   \<and> (metric_constraint_satisfied s \<and> run c s calls = Inr s2 \<longrightarrow> metric_constraint_satisfied s2)
   \<and> (metric_constraints s = [(''accuracy'', ''>='', 9 / 10)] \<and> metric_constraint_penalty s = Some [penalty]
        \<and> r ''accuracy'' = Some (8 / 10) \<and> r (metric s) = Some obj
        \<and> on_trial_complete c s trial_id (Some r) False = Inr s' \<longrightarrow>
        result_cache s' (config_signature c (config_of (r(metric s @ lagrange \<mapsto> obj + penalty * (1 / 10) * metric_op c))))
          = Some (of_result (r(metric s @ lagrange \<mapsto> obj + penalty * (1 / 10) * metric_op c)))
        \<and> (\<exists>ro1 s1. account_constraints c s (Some r) False = Inr (False, ro1, s1))
        \<and> metric_constraint_satisfied s' = metric_constraint_satisfied s)
   \<and> (metric_constraints s = [(''accuracy'', ''>='', 9 / 10)] \<and> metric_constraint_penalty s = Some [p]
        \<and> r ''accuracy'' = Some (95 / 100) \<and> \<not> metric_constraint_satisfied s
        \<and> on_trial_complete c s trial_id (Some r) False = Inr s' \<longrightarrow>
        metric_constraint_penalty s' = Some [1] \<and> metric_constraint_satisfied s'
        \<and> (\<forall>later s3. run c s' later = Inr s3 \<longrightarrow> metric_constraint_satisfied s3))"
proof (intro conjI impI)
  assume h: "r \<noteq> Map.empty \<and> metric_constraints s \<noteq> [] \<and> metric_constraint_penalty s = Some ps
      \<and> length (metric_constraints s) \<le> length ps
      \<and> on_trial_complete c s trial_id (Some r) False = Inr s'"
  then have "r \<noteq> Map.empty" "metric_constraints s \<noteq> []" "metric_constraint_penalty s = Some ps"
    "length (metric_constraints s) \<le> length ps" "on_trial_complete c s trial_id (Some r) False = Inr s'"
    by simp_all
  from completion_constraints [OF this]
  show "\<exists>obj0 r1 s1. r (metric s) = Some obj0
           \<and> r1 = r(metric s @ lagrange \<mapsto> obj0 + penalty_terms r (metric_op c) ps (metric_constraints s))
           \<and> account_constraints c s (Some r) False =
               Inr (\<forall>con\<in>set (metric_constraints s). \<not> violates r con, Some r1, s1)
           \<and> result_cache s' (config_signature c (config_of r1)) = Some (of_result r1)
           \<and> metric_constraint_satisfied s' =
               (metric_constraint_satisfied s \<or> (\<forall>con\<in>set (metric_constraints s). \<not> violates r con))
           \<and> ((\<forall>con\<in>set (metric_constraints s). \<not> violates r con) \<and> \<not> metric_constraint_satisfied s \<longrightarrow>
                 metric_constraint_penalty s' = Some (map (\<lambda>_. 1) (metric_constraints s)))"
    by (elim exE conjE) (intro exI conjI, assumption+, simp)
next
  assume "metric_constraint_satisfied s \<and> run c s calls = Inr s2"
  then show "metric_constraint_satisfied s2"
    using run_keeps_satisfied by blast
next
  assume h: "metric_constraints s = [(''accuracy'', ''>='', 9 / 10)] \<and> metric_constraint_penalty s = Some [penalty]
        \<and> r ''accuracy'' = Some (8 / 10) \<and> r (metric s) = Some obj
        \<and> on_trial_complete c s trial_id (Some r) False = Inr s'"
  then have ne: "r \<noteq> Map.empty" by auto
  have v: "violates r (''accuracy'', ''>='', 9 / 10)"
    using h by (simp add: violates_def violation_def)
  from h ne completion_constraints [of r s "[penalty]" c trial_id s'] obtain r1 s1 where
    c: "r1 = r(metric s @ lagrange \<mapsto> obj + penalty_terms r (metric_op c) [penalty] (metric_constraints s))"
       "account_constraints c s (Some r) False =
               Inr (\<forall>con\<in>set (metric_constraints s). \<not> violates r con, Some r1, s1)"
       "result_cache s' (config_signature c (config_of r1)) = Some (of_result r1)"
       "metric_constraint_satisfied s' =
               (metric_constraint_satisfied s \<or> (\<forall>con\<in>set (metric_constraints s). \<not> violates r con))"
    by auto
  have r1: "r1 = r(metric s @ lagrange \<mapsto> obj + penalty * (1 / 10) * metric_op c)"
    using c(1) h v by (simp add: violation_def)
  show "result_cache s' (config_signature c (config_of (r(metric s @ lagrange \<mapsto> obj + penalty * (1 / 10) * metric_op c))))
          = Some (of_result (r(metric s @ lagrange \<mapsto> obj + penalty * (1 / 10) * metric_op c)))"
    using c(3) r1 by simp
  show "\<exists>ro1 s1. account_constraints c s (Some r) False = Inr (False, ro1, s1)"
    using c(2) h v by auto
  show "metric_constraint_satisfied s' = metric_constraint_satisfied s"
    using c(4) h v by simp
next
  assume h: "metric_constraints s = [(''accuracy'', ''>='', 9 / 10)] \<and> metric_constraint_penalty s = Some [p]
        \<and> r ''accuracy'' = Some (95 / 100) \<and> \<not> metric_constraint_satisfied s
        \<and> on_trial_complete c s trial_id (Some r) False = Inr s'"
  then have ne: "r \<noteq> Map.empty" by auto
  have v: "\<not> violates r (''accuracy'', ''>='', 9 / 10)"
    using h by (simp add: violates_def violation_def)
  from h ne completion_constraints [of r s "[p]" c trial_id s'] have
    c: "metric_constraint_satisfied s' =
               (metric_constraint_satisfied s \<or> (\<forall>con\<in>set (metric_constraints s). \<not> violates r con))"
       "(\<forall>con\<in>set (metric_constraints s). \<not> violates r con) \<longrightarrow>
                 metric_constraint_penalty s' =
                   (if metric_constraint_satisfied s then Some [p]
                    else Some (map (\<lambda>_. 1) (metric_constraints s)))"
    by auto
  show "metric_constraint_penalty s' = Some [1]"
    using c(2) h v by simp
  show sat: "metric_constraint_satisfied s'"
    using c(1) h v by simp
  show "\<forall>later s3. run c s' later = Inr s3 \<longrightarrow> metric_constraint_satisfied s3"
    using sat run_keeps_satisfied by blast
qed

lemmas demo_defs = demo_mc_def demo_def mc_state_def construct_def init_search_def
  on_trial_complete_def BlendSearch_on_trial_complete_def account_constraints_def truthy_def
  deliver_def record_result_def sync_admissible_def dict_update_def config_of_def
  lagrange_def penalty_def of_result_def Let_def

lemma mc_step1: "on_trial_complete demo_mc mc_state ''t1'' (Some r8) False = Inr mc_state1"
  by (simp add: mc_state1_def r8_def demo_defs)

lemma mc_state1_fields:
  "metric_constraints mc_state1 = [(''accuracy'', ''>='', 9 / 10)]
   \<and> metric_constraint_penalty mc_state1 = Some [penalty]
   \<and> \<not> metric_constraint_satisfied mc_state1
   \<and> metric mc_state1 = ''loss''"
  by (simp add: mc_state1_def r8_def demo_defs)

lemma mc_step2: "\<exists>s2. on_trial_complete demo_mc mc_state1 ''t2'' (Some r95) False = Inr s2"
  by (simp add: mc_state1_def r8_def r95_def demo_defs)

theorem metric_constraint_penalty_completion_witness:
  "result_cache mc_state1 (Some 0) = Some (of_result (r8(''loss_lagrange'' \<mapsto> 1 + penalty * (1 / 10) * 1)))
   \<and> \<not> metric_constraint_satisfied mc_state1
   \<and> (\<exists>s2. on_trial_complete demo_mc mc_state1 ''t2'' (Some r95) False = Inr s2
          \<and> metric_constraint_penalty s2 = Some [1] \<and> metric_constraint_satisfied s2)"
proof -
  have f: "metric_constraints mc_state = [(''accuracy'', ''>='', 9 / 10)]"
      "metric_constraint_penalty mc_state = Some [penalty]"
      "r8 ''accuracy'' = Some (8 / 10)" "r8 (metric mc_state) = Some 1"
      "\<not> metric_constraint_satisfied mc_state" "metric mc_state = ''loss''"
      "metric_op demo_mc = 1" "config_signature demo_mc (config_of (r8(''loss_lagrange'' \<mapsto> x))) = Some 0" for x
    by (simp_all add: mc_state_def construct_def init_search_def r8_def demo_mc_def demo_def config_of_def)
  from metric_constraint_penalty_completion
         [of r8 mc_state "[penalty]" demo_mc "''t1''" mc_state1 "[]" mc_state 1 penalty]
       mc_step1 f
  have a: "result_cache mc_state1 (Some 0) = Some (of_result (r8(''loss_lagrange'' \<mapsto> 1 + penalty * (1 / 10) * 1)))"
    "metric_constraint_satisfied mc_state1 = metric_constraint_satisfied mc_state"
    by (simp_all add: lagrange_def)
  from mc_step2 obtain s2 where s2: "on_trial_complete demo_mc mc_state1 ''t2'' (Some r95) False = Inr s2"
    by blast
  have g: "r95 ''accuracy'' = Some (95 / 100)" by (simp add: r95_def)
  from metric_constraint_penalty_completion
         [of r95 mc_state1 "[penalty]" demo_mc "''t2''" s2 "[]" s2 2 penalty]
       s2 mc_state1_fields g
  have b: "metric_constraint_penalty s2 = Some [1]" "metric_constraint_satisfied s2"
    by simp_all
  show ?thesis using a b s2 f(5) by blast
qed

lemma account_constraints_skipped:
  assumes "r \<noteq> Map.empty" "metric_constraints s \<noteq> []" "r (metric s) = Some obj0"
    and "\<forall>con\<in>set (metric_constraints s). r (fst con) = None \<or> r (fst con) = Some 0"
  shows "account_constraints c s (Some r) False =
           Inr (True, Some (r(metric s @ lagrange \<mapsto> obj0)),
                s\<lparr>metric_constraint_penalty :=
                     (if \<not> metric_constraint_satisfied s then Some (map (\<lambda>_. 1) (metric_constraints s))
                      else metric_constraint_penalty s),
                   metric_constraint_satisfied := True\<rparr>)"
  using assms constraint_loop_skipped [OF assms(4), of "metric_op c" 0 "(obj0, True, metric_constraint_penalty s)"]
  by (simp add: account_constraints_def truthy_def)

text \<open>
  C9. A metric constraint whose metric is absent from the result, or is 0 there, is
  skipped by the loop and is not counted as violated. When this is so for every
  constraint, the completion records the objective without penalty, sets the
  satisfied flag and, if the flag was not set, sets every penalty weight to 1. The
  value 0 is skipped although it violates \<^verbatim>\<open>accuracy >= 0.9\<close> (its violation is
  positive).
\<close>

theorem falsy_constraint_skipped:
  "((r (fst con) = None \<or> r (fst con) = Some 0) \<longrightarrow>
       constraint_loop r op i (con # cs) acc = constraint_loop r op (Suc i) cs acc \<and> \<not> violates r con)
   \<and> (r \<noteq> Map.empty \<and> metric_constraints s \<noteq> []
        \<and> (\<forall>con\<in>set (metric_constraints s). r (fst con) = None \<or> r (fst con) = Some 0)
        \<and> on_trial_complete c s trial_id (Some r) False = Inr s' \<longrightarrow>
        (\<exists>obj0 s1. r (metric s) = Some obj0
           \<and> account_constraints c s (Some r) False = Inr (True, Some (r(metric s @ lagrange \<mapsto> obj0)), s1)
           \<and> result_cache s' (config_signature c (config_of (r(metric s @ lagrange \<mapsto> obj0))))
               = Some (of_result (r(metric s @ lagrange \<mapsto> obj0)))
           \<and> metric_constraint_satisfied s'
           \<and> metric_constraint_penalty s' =
               (if \<not> metric_constraint_satisfied s then Some (map (\<lambda>_. 1) (metric_constraints s))
                else metric_constraint_penalty s)))
   \<and> 0 < violation (''accuracy'', ''>='', 9 / 10) 0
   \<and> (r ''accuracy'' = Some 0 \<longrightarrow> \<not> violates r (''accuracy'', ''>='', 9 / 10))"
proof (intro conjI impI)
  assume "r (fst con) = None \<or> r (fst con) = Some 0"
  then show "constraint_loop r op i (con # cs) acc = constraint_loop r op (Suc i) cs acc"
    and "\<not> violates r con"
    by (auto simp: violates_def)
next
  assume h: "r \<noteq> Map.empty \<and> metric_constraints s \<noteq> []
        \<and> (\<forall>con\<in>set (metric_constraints s). r (fst con) = None \<or> r (fst con) = Some 0)
        \<and> on_trial_complete c s trial_id (Some r) False = Inr s'"
  from on_trial_complete_effect [of c s trial_id "Some r" False s'] h obtain sat ro1 s1 where
    e: "account_constraints c s (Some r) False = Inr (sat, ro1, s1)"
       "constraint_frame s1 s'"
       "result_cache s' = (result_cache s)(config_signature c (config_of (the ro1)) \<mapsto> of_result (the ro1))"
    by (auto simp: truthy_def)
  from account_constraints_metric [OF e(1)] h obtain obj0 where o: "r (metric s) = Some obj0"
    by blast
  from account_constraints_skipped [of r s obj0 c] h o have
    a: "account_constraints c s (Some r) False =
           Inr (True, Some (r(metric s @ lagrange \<mapsto> obj0)),
                s\<lparr>metric_constraint_penalty :=
                     (if \<not> metric_constraint_satisfied s then Some (map (\<lambda>_. 1) (metric_constraints s))
                      else metric_constraint_penalty s),
                   metric_constraint_satisfied := True\<rparr>)"
    by simp
  with e(1) have eq: "ro1 = Some (r(metric s @ lagrange \<mapsto> obj0))"
      "s1 = s\<lparr>metric_constraint_penalty :=
                     (if \<not> metric_constraint_satisfied s then Some (map (\<lambda>_. 1) (metric_constraints s))
                      else metric_constraint_penalty s),
                   metric_constraint_satisfied := True\<rparr>"
    by simp_all
  show "\<exists>obj0 s1. r (metric s) = Some obj0
           \<and> account_constraints c s (Some r) False = Inr (True, Some (r(metric s @ lagrange \<mapsto> obj0)), s1)
           \<and> result_cache s' (config_signature c (config_of (r(metric s @ lagrange \<mapsto> obj0))))
               = Some (of_result (r(metric s @ lagrange \<mapsto> obj0)))
           \<and> metric_constraint_satisfied s'
           \<and> metric_constraint_penalty s' =
               (if \<not> metric_constraint_satisfied s then Some (map (\<lambda>_. 1) (metric_constraints s))
                else metric_constraint_penalty s)"
    using o a e(2,3) eq
    by (intro exI [of _ obj0] exI [of _ s1]) (simp add: constraint_frame_def)
next
  show "0 < violation (''accuracy'', ''>='', 9 / 10) 0"
    by (simp add: violation_def)
next
  assume "r ''accuracy'' = Some 0"
  then show "\<not> violates r (''accuracy'', ''>='', 9 / 10)"
    by (simp add: violates_def)
qed

theorem falsy_constraint_skipped_witness:
  "\<exists>s'. on_trial_complete demo_mc mc_state ''t3'' (Some r0) False = Inr s'
        \<and> result_cache s' (Some (1 / 4)) = Some (of_result (r0(''loss_lagrange'' \<mapsto> 3)))
        \<and> metric_constraint_satisfied s' \<and> metric_constraint_penalty s' = Some [1]"
proof -
  have ex: "\<exists>s'. on_trial_complete demo_mc mc_state ''t3'' (Some r0) False = Inr s'"
    by (simp add: r0_def demo_defs)
  then obtain s' where s': "on_trial_complete demo_mc mc_state ''t3'' (Some r0) False = Inr s'"
    by blast
  have f: "metric_constraints mc_state = [(''accuracy'', ''>='', 9 / 10)]"
      "r0 ''accuracy'' = Some 0" "r0 (metric mc_state) = Some 3" "r0 \<noteq> Map.empty"
      "\<not> metric_constraint_satisfied mc_state" "metric mc_state = ''loss''"
      "config_signature demo_mc (config_of (r0(''loss_lagrange'' \<mapsto> x))) = Some (1 / 4)" for x
    by (auto simp: mc_state_def construct_def init_search_def r0_def demo_mc_def demo_def config_of_def)
  from falsy_constraint_skipped
         [of r0 "(''accuracy'', ''>='', 9 / 10)" 1 0 "[]" "(0, True, None)" mc_state demo_mc "''t3''" s']
       s' f
  have "result_cache s' (Some (1 / 4)) = Some (of_result (r0(''loss_lagrange'' \<mapsto> 3)))
        \<and> metric_constraint_satisfied s' \<and> metric_constraint_penalty s' = Some [1]"
    by (simp add: lagrange_def)
  then show ?thesis using s' by blast
qed

subsection \<open>Completion of a trial without an owner\<close>



subsection \<open>Completion with an error\<close>















subsection \<open>The size of the pool\<close>

lemma length_update_le: "length (AList.update k v al) \<le> Suc (length al)"
  by (induction al) auto

lemma length_update_present: "map_of al k \<noteq> None \<Longrightarrow> length (AList.update k v al) = length al"
  by (induction al) auto

lemma create_thread_length:
  "create_thread c s config r = Inr s' \<Longrightarrow>
     length (search_thread_pool s') \<le> Suc (length (search_thread_pool s))"
  by (auto simp: create_thread_def Let_def length_update_le split: option.splits sum.splits)

lemma best_candidate_length:
  "create_thread_from_best_candidate c s = Inr s' \<Longrightarrow>
     length (search_thread_pool s') \<le> Suc (length (search_thread_pool s))"
  by (auto simp: create_thread_from_best_candidate_def
           split: option.splits sum.splits if_splits dest!: create_thread_length)

lemma clean_candidates_pool:
  "clean_candidates c s t = Inr (s', b) \<Longrightarrow> search_thread_pool s' = search_thread_pool s"
  by (auto simp: clean_candidates_def split: option.splits sum.splits if_splits)

lemma clean_length:
  assumes "clean c s thread_id = Inr s'"
  shows "length (search_thread_pool s') \<le> length (search_thread_pool s)"
proof -
  from assms obtain ds b t s2 create_new where
    t: "map_of (search_thread_pool s) thread_id = Some t"
    and mid: "(if converged c t then
                 (case expand_admissible_region c s of
                    Inl e \<Rightarrow> Inl e
                  | Inr s1 \<Rightarrow> clean_candidates c s1 t)
               else Inr (s, False)) = Inr (s2, create_new)"
    and fin: "(if create_new
               then create_thread_from_best_candidate c
                      (s2\<lparr>search_thread_pool :=
                            filter (\<lambda>p. fst p \<notin> set (ds @ (if b \<or> converged c t then [thread_id] else [])))
                              (search_thread_pool s2)\<rparr>)
               else Inr (s2\<lparr>search_thread_pool :=
                            filter (\<lambda>p. fst p \<notin> set (ds @ (if b \<or> converged c t then [thread_id] else [])))
                              (search_thread_pool s2)\<rparr>)) = Inr s'"
    unfolding clean_def Let_def
    by (auto split: if_splits sum.splits option.splits prod.splits)
  have p2: "search_thread_pool s2 = search_thread_pool s"
    and cn: "create_new \<longrightarrow> converged c t"
    using mid by (auto split: if_splits sum.splits dest!: expand_pool clean_candidates_pool)
  define P where "P = (\<lambda>p::int \<times> 'a. fst p \<notin> set (ds @ (if b \<or> converged c t then [thread_id] else [])))"
  show ?thesis
  proof (cases create_new)
    case False
    with fin have "search_thread_pool s' = filter P (search_thread_pool s)"
      using p2 by (auto simp: P_def)
    then show ?thesis by simp
  next
    case True
    with cn have conv: "converged c t" by simp
    from t have "(thread_id, t) \<in> set (search_thread_pool s)" by (rule map_of_SomeD)
    moreover have "\<not> P (thread_id, t)" using conv by (simp add: P_def)
    ultimately have "length (filter P (search_thread_pool s)) < length (search_thread_pool s)"
      by (rule length_filter_less)
    moreover from fin True have
      "length (search_thread_pool s') \<le> Suc (length (filter P (search_thread_pool s)))"
      using p2 by (auto simp: P_def dest!: best_candidate_length)
    ultimately show ?thesis by simp
  qed
qed

lemma deliver_length:
  "length (search_thread_pool (snd (deliver c s trial_id ro err))) = length (search_thread_pool s)"
  by (auto simp: deliver_def length_update_present split: option.splits)

lemma spawn_length:
  "spawn c s trial_id config r = Inr s' \<Longrightarrow>
     length (search_thread_pool s') \<le> Suc (length (search_thread_pool s))"
  by (auto simp: spawn_def Let_def split: if_splits dest!: create_thread_length)

lemma CFO_create_condition_two:
  "CFO_create_condition c s r = Inr True \<Longrightarrow> length (search_thread_pool s) \<noteq> 2"
  by (auto simp: CFO_create_condition_def split: if_splits)

lemma record_result_length:
  assumes "record_result c s trial_id thread_id r err sat = Inr (th, s')" "cls c = CFO"
    and "length (search_thread_pool s) \<le> 2"
  shows "length (search_thread_pool s') \<le> 2"
  using assms unfolding record_result_def Let_def
  by (auto split: if_splits option.splits sum.splits bool.splits
           dest!: spawn_length expand_pool CFO_create_condition_two
           simp: sync_admissible_def create_condition_def)

lemma account_constraints_pool:
  "account_constraints c s ro err = Inr (sat, ro1, s1) \<Longrightarrow> search_thread_pool s1 = search_thread_pool s"
  by (simp add: account_constraints_frame)

lemma BlendSearch_on_trial_complete_length:
  assumes "BlendSearch_on_trial_complete c s trial_id ro err = Inr (ro1, s')" "cls c = CFO"
    and "length (search_thread_pool s) \<le> 2"
  shows "length (search_thread_pool s') \<le> 2"
proof -
  from BlendSearch_on_trial_complete_phases [OF assms(1)] obtain sat s1 th s3 where
    ac: "account_constraints c s ro err = Inr (sat, ro1, s1)"
    and rr: "(if truthy ro1
                then record_result c (snd (deliver c s1 trial_id ro1 err)) trial_id
                       (fst (deliver c s1 trial_id ro1 err)) (the ro1) err sat
                else Inr (deliver c s1 trial_id ro1 err)) = Inr (th, s3)"
    and cl: "s' = s3 \<or> (\<exists>i. th = Some i \<and> i \<noteq> 0 \<and> map_of (search_thread_pool s3) i \<noteq> None
                              \<and> clean c s3 i = Inr s')"
    by blast
  have "length (search_thread_pool (snd (deliver c s1 trial_id ro1 err))) \<le> 2"
    using deliver_length [of c s1 trial_id ro1 err] account_constraints_pool [OF ac] assms(3)
    by simp
  then have "length (search_thread_pool s3) \<le> 2"
    using rr assms(2) by (auto split: if_splits dest: record_result_length)
  then show ?thesis
    using cl by (auto dest!: clean_length)
qed

lemma on_trial_complete_length:
  assumes "on_trial_complete c s trial_id ro err = Inr s'" "cls c = CFO"
    and "length (search_thread_pool s) \<le> 2"
  shows "length (search_thread_pool s') \<le> 2"
proof -
  from assms(1,2) obtain ro1 s1 where
    b: "BlendSearch_on_trial_complete c s trial_id ro err = Inr (ro1, s1)"
    and f: "s' = s1
            \<or> s' = s1\<lparr>candidate_start_points := Some (AList.update trial_id ro1 (cands s1))\<rparr>
            \<or> (length (search_thread_pool s1) < 2
                \<and> create_thread_from_best_candidate c
                     (s1\<lparr>candidate_start_points := Some (AList.update trial_id ro1 (cands s1))\<rparr>) = Inr s')"
    unfolding on_trial_complete_def CFO_on_trial_complete_def Let_def
    by (auto split: sum.splits if_splits)
  from BlendSearch_on_trial_complete_length [OF b assms(2,3)]
  have "length (search_thread_pool s1) \<le> 2" .
  then show ?thesis
    using f by (auto dest!: best_candidate_length)
qed

lemma should_skip_length:
  "should_skip c s choice trial_id co = Inr (b, s') \<Longrightarrow>
     length (search_thread_pool s') \<le> length (search_thread_pool s)"
  unfolding should_skip_def Let_def
  by (auto split: option.splits if_splits sum.splits dest!: clean_length
           simp: length_update_present)

lemma eci_loop_length: "length (fst (eci_loop c target ms pool me)) = length pool"
  by (induction pool arbitrary: me) (simp_all add: Let_def)

lemma select_thread_length:
  "select_thread c s now = Inr (p, s') \<Longrightarrow>
     length (search_thread_pool s') = length (search_thread_pool s)"
  by (auto simp: select_thread_def BlendSearch_select_thread_def CFO_select_thread_def Let_def
                 eci_loop_length
           split: variant.splits option.splits list.splits)

lemma propose_pool:
  "propose c s choice config = Inr (co, s') \<Longrightarrow> search_thread_pool s' = search_thread_pool s"
  by (auto simp: propose_def Let_def sync_admissible_def split: if_splits sum.splits)

lemma ask_length:
  "ask c s i trial_id = Inr (co, s') \<Longrightarrow>
     length (search_thread_pool s') = length (search_thread_pool s)"
  by (auto simp: ask_def length_update_present split: option.splits)

lemma accept_length:
  "accept c s choice backup trial_id config = Inr (co, s') \<Longrightarrow>
     length (search_thread_pool s') \<le> length (search_thread_pool s)"
  unfolding accept_def Let_def
  by (auto split: if_splits sum.splits bool.splits option.splits
           dest!: propose_pool ask_length should_skip_length)

lemma length_delete_le: "length (AList.delete k al) \<le> length al"
  by (simp add: AList.delete_eq)

lemma steady_suggest_length:
  "steady_suggest c s trial_id now = Inr (co, s') \<Longrightarrow>
     length (search_thread_pool s') \<le> length (search_thread_pool s)"
  unfolding steady_suggest_def Let_def
  by (auto split: if_splits sum.splits option.splits
           dest!: select_thread_length ask_length should_skip_length accept_length expand_pool
           simp: length_delete_le le_trans [OF length_delete_le])

lemma bootstrap_suggest_length:
  "bootstrap_suggest c s trial_id = Inr (co, s') \<Longrightarrow>
     length (search_thread_pool s') = length (search_thread_pool s)"
  unfolding bootstrap_suggest_def Let_def
  by (auto split: if_splits option.splits simp: length_update_present)

lemma suggest_length:
  "suggest c s trial_id now = Inr (co, s') \<Longrightarrow>
     length (search_thread_pool s') \<le> length (search_thread_pool s)"
  by (auto simp: suggest_def BlendSearch_suggest_def CFO_suggest_def
           split: variant.splits if_splits
           dest!: steady_suggest_length bootstrap_suggest_length)

lemma on_trial_result_length:
  "on_trial_result c s trial_id r = Inr s' \<Longrightarrow>
     length (search_thread_pool s') = length (search_thread_pool s)"
  by (auto simp: on_trial_result_def length_update_present split: option.splits if_splits sum.splits)

lemma step_length:
  assumes "step c s a = Inr s'" "cls c = CFO" "length (search_thread_pool s) \<le> 2"
  shows "length (search_thread_pool s') \<le> 2"
proof (cases a)
  case (Suggest trial_id now)
  with assms show ?thesis
    by (auto simp: step_def split: sum.splits dest!: suggest_length)
next
  case (Result trial_id r)
  with assms show ?thesis
    by (auto simp: step_def dest!: on_trial_result_length)
next
  case (Complete trial_id ro err)
  with assms show ?thesis
    by (auto simp: step_def dest: on_trial_complete_length)
qed

lemma run_length:
  "run c s as = Inr s' \<Longrightarrow> cls c = CFO \<Longrightarrow> length (search_thread_pool s) \<le> 2
     \<Longrightarrow> length (search_thread_pool s') \<le> 2"
proof (induction as arbitrary: s)
  case Nil
  then show ?case by simp
next
  case (Cons a as)
  then obtain s1 where s1: "step c s a = Inr s1" "run c s1 as = Inr s'"
    by (auto split: sum.splits)
  from step_length [OF s1(1) Cons.prems(2,3)] Cons.IH [OF s1(2) Cons.prems(2)]
  show ?case by simp
qed

lemma keys_simps: "keys [] = []" "keys (p # d) = fst p # keys d"
  by (simp_all add: keys_def)

lemmas run_defs = step_def suggest_def CFO_suggest_def BlendSearch_suggest_def bootstrap_suggest_def
  steady_suggest_def select_thread_def CFO_select_thread_def BlendSearch_select_thread_def
  ask_def should_skip_def accept_def propose_def valid_def
  on_trial_complete_def CFO_on_trial_complete_def BlendSearch_on_trial_complete_def
  account_constraints_def truthy_def deliver_def record_result_def create_condition_def
  CFO_create_condition_def BlendSearch_create_condition_def spawn_def create_thread_def
  update_admissible_region_def expand_admissible_region_def sync_admissible_def dict_update_def
  clean_def clean_candidates_def create_thread_from_best_candidate_def inferior_def
  resource_smaller_def cands_def keys_simps config_of_def of_result_def cost_attr_def Let_def

lemma cfo_run:
  "run demo_cfo cfo_state cfo_calls = Inr cfo_final \<and> keys (search_thread_pool cfo_final) = [0, 1]"
  by (simp add: cfo_final_def cfo_calls_def cfo_state_def demo_cfo_def demo_def construct_def
        init_search_def run_defs)

text \<open>
  C4. Under \<^verbatim>\<open>CFO\<close> the pool starts with one thread and, from a state with at most 2
  threads, has at most 2 after every run of \<^verbatim>\<open>suggest\<close>, \<^verbatim>\<open>on_trial_result\<close> and
  \<^verbatim>\<open>on_trial_complete\<close> calls that returns. \<^verbatim>\<open>suggest\<close> on a pool of 3 or more raises
  the assertion error. The creation condition of \<^verbatim>\<open>CFO\<close> is false whenever the pool
  holds 2 threads and whenever initial points remain to be evaluated.
\<close>

theorem CFO_pool_invariant:
  "(cls c = CFO \<and> length (search_thread_pool s) \<le> 2 \<and> run c s calls = Inr s' \<longrightarrow>
      length (search_thread_pool s') \<le> 2)
   \<and> length (search_thread_pool (construct c l m points low_cost_given ccs mcs)) = 1
   \<and> (cls c = CFO \<and> 3 \<le> length (search_thread_pool s) \<longrightarrow>
        suggest c s trial_id now = Inl AssertionError)
   \<and> (length (search_thread_pool s) = 2 \<longrightarrow> CFO_create_condition c s r = Inr False)
   \<and> (points_to_evaluate s \<noteq> [] \<longrightarrow> CFO_create_condition c s r = Inr False)
   \<and> (cls c = CFO \<longrightarrow> create_condition c s r = CFO_create_condition c s r)"
proof (intro conjI impI)
  assume "cls c = CFO \<and> length (search_thread_pool s) \<le> 2 \<and> run c s calls = Inr s'"
  then show "length (search_thread_pool s') \<le> 2"
    using run_length by blast
next
  show "length (search_thread_pool (construct c l m points low_cost_given ccs mcs)) = 1"
    by (simp add: construct_def init_search_def)
next
  assume "cls c = CFO \<and> 3 \<le> length (search_thread_pool s)"
  then show "suggest c s trial_id now = Inl AssertionError"
    by (simp add: suggest_def CFO_suggest_def)
next
  assume "length (search_thread_pool s) = 2"
  then show "CFO_create_condition c s r = Inr False"
    by (simp add: CFO_create_condition_def)
next
  assume "points_to_evaluate s \<noteq> []"
  then show "CFO_create_condition c s r = Inr False"
    by (simp add: CFO_create_condition_def)
next
  assume "cls c = CFO"
  then show "create_condition c s r = CFO_create_condition c s r"
    by (simp add: create_condition_def)
qed

theorem CFO_pool_invariant_witness:
  "run demo_cfo cfo_state cfo_calls = Inr cfo_final
   \<and> keys (search_thread_pool cfo_final) = [0, 1]
   \<and> length (search_thread_pool cfo_final) \<le> 2
   \<and> CFO_create_condition demo_cfo cfo_final [''loss'' \<mapsto> 0] = Inr False
   \<and> suggest demo_cfo (pool_state\<lparr>search_thread_pool := [(0, (0, 0)), (1, (5, 5)), (2, (3, 4))]\<rparr>) ''t3'' 0
       = Inl AssertionError"
proof -
  have f: "cls demo_cfo = CFO" "length (search_thread_pool cfo_state) \<le> 2"
    by (simp_all add: demo_cfo_def demo_def cfo_state_def construct_def init_search_def)
  have l: "length (search_thread_pool cfo_final) = 2"
    using cfo_run by (metis keys_def length_map length_Cons list.size(3) numeral_2_eq_2)
  from CFO_pool_invariant [where c = demo_cfo and s = cfo_state and calls = cfo_calls
         and s' = cfo_final, THEN conjunct1] f cfo_run have "length (search_thread_pool cfo_final) \<le> 2"
    by simp
  moreover from CFO_pool_invariant [where c = demo_cfo and s = cfo_final
         and r = "[''loss'' \<mapsto> 0]"] l
  have "CFO_create_condition demo_cfo cfo_final [''loss'' \<mapsto> 0] = Inr False"
    by simp
  moreover from CFO_pool_invariant
      [where c = demo_cfo
         and s = "pool_state\<lparr>search_thread_pool := [(0, (0, 0)), (1, (5, 5)), (2, (3, 4))]\<rparr>"
         and trial_id = "''t3''" and now = 0] f(1)
  have "suggest demo_cfo (pool_state\<lparr>search_thread_pool := [(0, (0, 0)), (1, (5, 5)), (2, (3, 4))]\<rparr>) ''t3'' 0
       = Inl AssertionError"
    by simp
  ultimately show ?thesis using cfo_run by simp
qed

subsection \<open>Growth of the admissible boxes\<close>














subsection \<open>An unowned completion under both classes\<close>









subsection \<open>The boxes under each call\<close>



lemma box_step_upd [simp]:
  "box_step (s\<lparr>metric := x1\<rparr>) s' = box_step s s'"
  "box_step s (s'\<lparr>metric := x2\<rparr>) = box_step s s'"
  "box_step (s\<lparr>points_to_evaluate := x3\<rparr>) s' = box_step s s'"
  "box_step s (s'\<lparr>points_to_evaluate := x4\<rparr>) = box_step s s'"
  "box_step (s\<lparr>config_constraints := x5\<rparr>) s' = box_step s s'"
  "box_step s (s'\<lparr>config_constraints := x6\<rparr>) = box_step s s'"
  "box_step (s\<lparr>metric_constraints := x7\<rparr>) s' = box_step s s'"
  "box_step s (s'\<lparr>metric_constraints := x8\<rparr>) = box_step s s'"
  "box_step (s\<lparr>candidate_start_points := x9\<rparr>) s' = box_step s s'"
  "box_step s (s'\<lparr>candidate_start_points := x10\<rparr>) = box_step s s'"
  "box_step (s\<lparr>started_from_given := x11\<rparr>) s' = box_step s s'"
  "box_step s (s'\<lparr>started_from_given := x12\<rparr>) = box_step s s'"
  "box_step (s\<lparr>started_from_low_cost := x13\<rparr>) s' = box_step s s'"
  "box_step s (s'\<lparr>started_from_low_cost := x14\<rparr>) = box_step s s'"
  "box_step (s\<lparr>ls := x15\<rparr>) s' = box_step s s'"
  "box_step s (s'\<lparr>ls := x16\<rparr>) = box_step s s'"
  "box_step (s\<lparr>metric_target := x17\<rparr>) s' = box_step s s'"
  "box_step s (s'\<lparr>metric_target := x18\<rparr>) = box_step s s'"
  "box_step (s\<lparr>search_thread_pool := x19\<rparr>) s' = box_step s s'"
  "box_step s (s'\<lparr>search_thread_pool := x20\<rparr>) = box_step s s'"
  "box_step (s\<lparr>thread_count := x21\<rparr>) s' = box_step s s'"
  "box_step s (s'\<lparr>thread_count := x22\<rparr>) = box_step s s'"
  "box_step (s\<lparr>init_used := x23\<rparr>) s' = box_step s s'"
  "box_step s (s'\<lparr>init_used := x24\<rparr>) = box_step s s'"
  "box_step (s\<lparr>trial_proposed_by := x25\<rparr>) s' = box_step s s'"
  "box_step s (s'\<lparr>trial_proposed_by := x26\<rparr>) = box_step s s'"
  "box_step (s\<lparr>result_cache := x27\<rparr>) s' = box_step s s'"
  "box_step s (s'\<lparr>result_cache := x28\<rparr>) = box_step s s'"
  "box_step (s\<lparr>deadline := x29\<rparr>) s' = box_step s s'"
  "box_step s (s'\<lparr>deadline := x30\<rparr>) = box_step s s'"
  "box_step (s\<lparr>metric_constraint_satisfied := x31\<rparr>) s' = box_step s s'"
  "box_step s (s'\<lparr>metric_constraint_satisfied := x32\<rparr>) = box_step s s'"
  "box_step (s\<lparr>metric_constraint_penalty := x33\<rparr>) s' = box_step s s'"
  "box_step s (s'\<lparr>metric_constraint_penalty := x34\<rparr>) = box_step s s'"
  by (simp_all add: box_step_def box_grows_def boxes_ok_def)







































subsection \<open>The two boxes after a completion\<close>











end
